theory Spec2Isabelle
  imports Main
begin

section \<open>Entitlement store\<close>

text \<open>
  The \<open>users\<close> collection holds one document per user id. The code only ever writes the
  strings \<open>'free'\<close>, \<open>'monthly'\<close>, \<open>'quarterly'\<close> and \<open>'yearly'\<close> into
  \<open>subscription_status\<close> (the \<open>switch\<close> of the subscribe route rejects every other plan),
  so the field is an enumeration. Timestamps are milliseconds since the epoch, the value
  that \<open>toDate()\<close> and \<open>new Date()\<close> are compared by. The document written by the
  subscribe route has no \<open>user_id\<close> field, hence the option.
\<close>

datatype status = Free | Monthly | Quarterly | Yearly

type_synonym millis = int

record user_doc =
  user_id :: "string option"
  free_generations_remaining :: int
  subscription_status :: status
  subscription_expiry :: "millis option"
  created_at :: millis

type_synonym user_docs = "string \<rightharpoonup> user_doc"

text \<open>
  Every call into the document store or the generator may reject. Whether a given call
  does is not decided by the program, so each call takes its outcome as an argument.
\<close>

datatype outcome = Succeeds | Throws

datatype error =
    StoreError
  | NotFound
  | TypeError
  | InvalidQuestionStructure
  | InvalidFlashcardStructure
  | GeneratorError
  | SyntaxError
  | PdfParseError
  | PdfWriteError

definition getDoc :: "outcome \<Rightarrow> user_docs \<Rightarrow> string \<Rightarrow> error + user_doc option" where
  "getDoc oc db uid = (case oc of Throws \<Rightarrow> Inl StoreError | Succeeds \<Rightarrow> Inr (db uid))"

definition setDoc :: "outcome \<Rightarrow> user_docs \<Rightarrow> string \<Rightarrow> user_doc \<Rightarrow> error + user_docs" where
  "setDoc oc db uid d = (case oc of Throws \<Rightarrow> Inl StoreError | Succeeds \<Rightarrow> Inr (db(uid \<mapsto> d)))"

text \<open>\<open>updateDoc\<close> merges the given fields into an existing document and rejects when
  there is none.\<close>

definition updateDoc :: "outcome \<Rightarrow> user_docs \<Rightarrow> string \<Rightarrow> (user_doc \<Rightarrow> user_doc) \<Rightarrow> error + user_docs" where
  "updateDoc oc db uid f =
     (case oc of
        Throws \<Rightarrow> Inl StoreError
      | Succeeds \<Rightarrow> (case db uid of None \<Rightarrow> Inl NotFound | Some d \<Rightarrow> Inr (db(uid \<mapsto> f d))))"

section \<open>Usage metering\<close>

record usage =
  canGenerate :: bool
  remainingFree :: int
  subscriptionStatus :: status

definition new_profile :: "string \<Rightarrow> millis \<Rightarrow> user_doc" where
  "new_profile userId now =
     \<lparr>user_id = Some userId, free_generations_remaining = 10, subscription_status = Free,
      subscription_expiry = None, created_at = now\<rparr>"

definition revert_to_free :: "user_doc \<Rightarrow> user_doc" where
  "revert_to_free d = d\<lparr>subscription_status := Free, subscription_expiry := None\<rparr>"

text \<open>\<open>subscription_expiry && subscription_expiry.toDate() > new Date()\<close>\<close>

definition still_valid :: "millis option \<Rightarrow> millis \<Rightarrow> bool" where
  "still_valid expiry now = (case expiry of None \<Rightarrow> False | Some e \<Rightarrow> e > now)"

text \<open>
  \<open>checkUserUsage\<close>: \<open>rd\<close> is the outcome of its \<open>getDoc\<close>, \<open>wr\<close> the outcome of the one
  write it may make (\<open>setDoc\<close> for a new user, \<open>updateDoc\<close> for a lapsed subscription),
  \<open>now\<close> the clock. The catch block logs and rethrows, so an error is returned as \<open>Inl\<close>.
\<close>

definition free_tier :: "user_doc \<Rightarrow> usage" where
  "free_tier userData =
     (if free_generations_remaining userData > 0
      then \<lparr>canGenerate = True, remainingFree = free_generations_remaining userData,
            subscriptionStatus = Free\<rparr>
      else \<lparr>canGenerate = False, remainingFree = 0, subscriptionStatus = Free\<rparr>)"

definition checkUserUsage ::
  "outcome \<Rightarrow> outcome \<Rightarrow> millis \<Rightarrow> user_docs \<Rightarrow> string \<Rightarrow> user_docs \<times> (error + usage)" where
  "checkUserUsage rd wr now db userId =
     (case getDoc rd db userId of
        Inl e \<Rightarrow> (db, Inl e)
      | Inr None \<Rightarrow>
          (case setDoc wr db userId (new_profile userId now) of
             Inl e \<Rightarrow> (db, Inl e)
           | Inr db' \<Rightarrow>
               (db', Inr \<lparr>canGenerate = True, remainingFree = 10, subscriptionStatus = Free\<rparr>))
      | Inr (Some userData) \<Rightarrow>
          if subscription_status userData \<noteq> Free then
            if still_valid (subscription_expiry userData) now then
              (db, Inr \<lparr>canGenerate = True, remainingFree = 0,
                        subscriptionStatus = subscription_status userData\<rparr>)
            else
              (case updateDoc wr db userId revert_to_free of
                 Inl e \<Rightarrow> (db, Inl e)
               | Inr db' \<Rightarrow> (db', Inr (free_tier userData)))
          else (db, Inr (free_tier userData)))"

text \<open>
  \<open>decrementFreeUsage\<close>: its catch block logs and returns 0, so no error escapes.
\<close>

definition decrementFreeUsage :: "outcome \<Rightarrow> outcome \<Rightarrow> user_docs \<Rightarrow> string \<Rightarrow> user_docs \<times> int" where
  "decrementFreeUsage rd wr db userId =
     (case getDoc rd db userId of
        Inl e \<Rightarrow> (db, 0)
      | Inr None \<Rightarrow> (db, 0)
      | Inr (Some userData) \<Rightarrow>
          if subscription_status userData = Free \<and> free_generations_remaining userData > 0 then
            (case updateDoc wr db userId
                    (\<lambda>d. d\<lparr>free_generations_remaining := free_generations_remaining userData - 1\<rparr>) of
               Inl e \<Rightarrow> (db, 0)
             | Inr db' \<Rightarrow> (db', free_generations_remaining userData - 1))
          else (db, 0))"

section \<open>Subscription routes\<close>

text \<open>
  \<open>GET /api/user/subscription/:userId\<close>. The handler answers 500 when a store call
  rejects. On the typed record \<open>free_generations_remaining || 0\<close> and
  \<open>subscription_status || 'free'\<close> are the field values themselves.
\<close>

record subscription_info =
  info_user_id :: string
  info_free_generations_remaining :: int
  info_subscription_status :: status
  info_subscription_expiry :: "millis option"

datatype info_response = InfoOk subscription_info | InfoServerError

text \<open>\<open>subscription_expiry && subscription_expiry.toDate() < new Date()\<close>\<close>

definition has_passed :: "millis option \<Rightarrow> millis \<Rightarrow> bool" where
  "has_passed expiry now = (case expiry of None \<Rightarrow> False | Some e \<Rightarrow> e < now)"

definition get_subscription ::
  "outcome \<Rightarrow> outcome \<Rightarrow> millis \<Rightarrow> user_docs \<Rightarrow> string \<Rightarrow> user_docs \<times> info_response" where
  "get_subscription rd wr now db userId =
     (case getDoc rd db userId of
        Inl e \<Rightarrow> (db, InfoServerError)
      | Inr None \<Rightarrow>
          (case setDoc wr db userId (new_profile userId now) of
             Inl e \<Rightarrow> (db, InfoServerError)
           | Inr db' \<Rightarrow>
               (db', InfoOk \<lparr>info_user_id = userId, info_free_generations_remaining = 10,
                             info_subscription_status = Free,
                             info_subscription_expiry = None\<rparr>))
      | Inr (Some userData) \<Rightarrow>
          if subscription_status userData \<noteq> Free \<and> has_passed (subscription_expiry userData) now
          then
            (case updateDoc wr db userId revert_to_free of
               Inl e \<Rightarrow> (db, InfoServerError)
             | Inr db' \<Rightarrow>
                 (db', InfoOk \<lparr>info_user_id = userId,
                               info_free_generations_remaining = free_generations_remaining userData,
                               info_subscription_status = Free,
                               info_subscription_expiry = None\<rparr>))
          else
            (db, InfoOk \<lparr>info_user_id = userId,
                         info_free_generations_remaining = free_generations_remaining userData,
                         info_subscription_status = subscription_status userData,
                         info_subscription_expiry = subscription_expiry userData\<rparr>))"

subsection \<open>Dates\<close>

text \<open>
  \<open>Date\<close> is the language's own: a time value in milliseconds, read and set through its
  calendar fields in local time. The functions below follow the definitions of the
  language standard (\<open>Day\<close>, \<open>TimeWithinDay\<close>, \<open>MakeDay\<close>, \<open>MakeDate\<close>) on the proleptic
  Gregorian calendar, months counted from 0, for time values in the range a \<open>Date\<close> holds.

  The host's time zone is not the program's. It is given by the two offsets the standard
  reads from it, in milliseconds: the offset in force at a UTC time value, by which
  \<open>LocalTime\<close> reads a date, and the offset the host applies to a local time value (one
  that daylight saving skips or repeats included), by which \<open>UTC\<close> converts a date that has
  been set.
\<close>

record zone =
  offset_at_utc :: "millis \<Rightarrow> int"
  offset_at_local :: "millis \<Rightarrow> int"

definition LocalTime :: "zone \<Rightarrow> millis \<Rightarrow> millis" where
  "LocalTime z t = t + offset_at_utc z t"

definition UTC :: "zone \<Rightarrow> millis \<Rightarrow> millis" where
  "UTC z t = t - offset_at_local z t"

definition msPerDay :: int where
  "msPerDay = 86400000"

definition Day :: "millis \<Rightarrow> int" where
  "Day t = t div msPerDay"

definition TimeWithinDay :: "millis \<Rightarrow> int" where
  "TimeWithinDay t = t mod msPerDay"

text \<open>Day number (days since 1 January 1970) of the first day of month \<open>m\<close> of year \<open>y\<close>,
  for \<open>0 \<le> m < 12\<close>.\<close>

definition day_of_month_start :: "int \<Rightarrow> int \<Rightarrow> int" where
  "day_of_month_start y m =
     (let y' = (if m < 2 then y - 1 else y);
          era = y' div 400;
          yoe = y' mod 400;
          mp = (m + 10) mod 12;
          doy = (153 * mp + 2) div 5;
          doe = yoe * 365 + yoe div 4 - yoe div 100 + doy
      in era * 146097 + doe - 719468)"

text \<open>Year, month (from 0) and day of the month (from 1) of a day number.\<close>

definition civil_of_day :: "int \<Rightarrow> int \<times> int \<times> int" where
  "civil_of_day z =
     (let z' = z + 719468;
          era = z' div 146097;
          doe = z' mod 146097;
          yoe = (doe - doe div 1460 + doe div 36524 - doe div 146096) div 365;
          doy = doe - (365 * yoe + yoe div 4 - yoe div 100);
          mp = (5 * doy + 2) div 153;
          d = doy - (153 * mp + 2) div 5 + 1;
          m = (mp + 2) mod 12
      in (yoe + era * 400 + (if m < 2 then 1 else 0), m, d))"

definition YearFromTime :: "millis \<Rightarrow> int" where
  "YearFromTime t = fst (civil_of_day (Day t))"

definition MonthFromTime :: "millis \<Rightarrow> int" where
  "MonthFromTime t = fst (snd (civil_of_day (Day t)))"

definition DateFromTime :: "millis \<Rightarrow> int" where
  "DateFromTime t = snd (snd (civil_of_day (Day t)))"

definition MakeDay :: "int \<Rightarrow> int \<Rightarrow> int \<Rightarrow> int" where
  "MakeDay year month date = day_of_month_start (year + month div 12) (month mod 12) + date - 1"

definition MakeDate :: "int \<Rightarrow> int \<Rightarrow> millis" where
  "MakeDate day time = day * msPerDay + time"

definition getMonth :: "zone \<Rightarrow> millis \<Rightarrow> int" where
  "getMonth z t = MonthFromTime (LocalTime z t)"

definition getFullYear :: "zone \<Rightarrow> millis \<Rightarrow> int" where
  "getFullYear z t = YearFromTime (LocalTime z t)"

definition setMonth :: "zone \<Rightarrow> millis \<Rightarrow> int \<Rightarrow> millis" where
  "setMonth z t month =
     (let lt = LocalTime z t
      in UTC z (MakeDate (MakeDay (YearFromTime lt) month (DateFromTime lt)) (TimeWithinDay lt)))"

definition setFullYear :: "zone \<Rightarrow> millis \<Rightarrow> int \<Rightarrow> millis" where
  "setFullYear z t year =
     (let lt = LocalTime z t
      in UTC z (MakeDate (MakeDay year (MonthFromTime lt) (DateFromTime lt)) (TimeWithinDay lt)))"

text \<open>The calendar the dates are read against: leap years, the length of month \<open>m\<close>
  (from 0) of year \<open>y\<close>, and the day number on which the year that begins in March of
  \<open>y'\<close> starts, counted from 1 March 0000.\<close>

definition leap_year :: "int \<Rightarrow> bool" where
  "leap_year y = (y mod 4 = 0 \<and> (y mod 100 \<noteq> 0 \<or> y mod 400 = 0))"

definition days_in_month :: "int \<Rightarrow> int \<Rightarrow> int" where
  "days_in_month y m =
     (if m = 1 then (if leap_year y then 29 else 28)
      else if m \<in> {3, 5, 8, 10} then 30 else 31)"

definition march_year_start :: "int \<Rightarrow> int" where
  "march_year_start y' =
     (y' div 400) * 146097 + (y' mod 400) * 365 + (y' mod 400) div 4 - (y' mod 400) div 100"

subsection \<open>Subscribing\<close>

text \<open>
  \<open>POST /api/user/subscribe\<close>. \<open>userId\<close> and \<open>plan\<close> are the strings of the request body,
  the empty string standing for a missing field. \<open>z\<close> is the host's time zone, \<open>now\<close> the
  clock read by \<open>new Date()\<close>, \<open>stamp\<close> the one read by \<open>Timestamp.now()\<close> when the record
  is created.
\<close>

datatype subscribe_response =
    SubscribeBadRequest string
  | SubscribeOk string string millis
  | SubscribeServerError

text \<open>The \<open>switch\<close> on the plan: the stored status and the expiry date, or no match.\<close>

definition plan_expiry :: "zone \<Rightarrow> millis \<Rightarrow> string \<Rightarrow> (status \<times> millis) option" where
  "plan_expiry z now plan =
     (if plan = ''monthly'' then Some (Monthly, setMonth z now (getMonth z now + 1))
      else if plan = ''quarterly'' then Some (Quarterly, setMonth z now (getMonth z now + 3))
      else if plan = ''yearly'' then Some (Yearly, setFullYear z now (getFullYear z now + 1))
      else None)"

definition subscribe ::
  "outcome \<Rightarrow> outcome \<Rightarrow> zone \<Rightarrow> millis \<Rightarrow> millis \<Rightarrow> user_docs \<Rightarrow> string \<Rightarrow> string
     \<Rightarrow> user_docs \<times> subscribe_response" where
  "subscribe rd wr z now stamp db userId plan =
     (if userId = [] \<or> plan = [] then
        (db, SubscribeBadRequest ''User ID and plan are required'')
      else
        (case getDoc rd db userId of
           Inl e \<Rightarrow> (db, SubscribeServerError)
         | Inr userSnap \<Rightarrow>
             (case plan_expiry z now plan of
                None \<Rightarrow>
                  (db, SubscribeBadRequest ''Invalid plan. Choose monthly, quarterly, or yearly.'')
              | Some (st, expiryDate) \<Rightarrow>
                  (case (case userSnap of
                           None \<Rightarrow>
                             setDoc wr db userId
                               \<lparr>user_id = None, free_generations_remaining = 0,
                                subscription_status = st,
                                subscription_expiry = Some expiryDate, created_at = stamp\<rparr>
                         | Some userData \<Rightarrow>
                             updateDoc wr db userId
                               (\<lambda>d. d\<lparr>subscription_status := st,
                                       subscription_expiry := Some expiryDate\<rparr>)) of
                     Inl e \<Rightarrow> (db, SubscribeServerError)
                   | Inr db' \<Rightarrow> (db', SubscribeOk userId plan expiryDate)))))"

section \<open>Generated content\<close>

text \<open>
  What \<open>JSON.parse\<close> returns. The code reads two things of a number: whether it is zero
  (in a test of truth) and what \<open>String\<close> prints for it. A number is given by these two,
  both the language's. An object lists each of its keys once. A property that is not there
  reads as \<open>undefined\<close>, modelled by \<open>None\<close>.
\<close>

datatype json =
    JNull
  | JBool bool
  | JNum (nonzero: bool) (printed: string)
  | JStr string
  | JArr "json list"
  | JObj "(string \<times> json) list"

text \<open>Reading a property: a \<open>TypeError\<close> on \<open>null\<close>, \<open>undefined\<close> on anything that is not
  an object. None of the property names the code reads is a built-in property of a string,
  a number or an array.\<close>

definition property :: "json \<Rightarrow> string \<Rightarrow> error + json option" where
  "property v k = (case v of JNull \<Rightarrow> Inl TypeError | JObj kvs \<Rightarrow> Inr (map_of kvs k) | _ \<Rightarrow> Inr None)"

definition truthy :: "json option \<Rightarrow> bool" where
  "truthy v =
     (case v of
        None \<Rightarrow> False
      | Some JNull \<Rightarrow> False
      | Some (JBool b) \<Rightarrow> b
      | Some (JNum nz p) \<Rightarrow> nz
      | Some (JStr s) \<Rightarrow> s \<noteq> []
      | Some _ \<Rightarrow> True)"

text \<open>\<open>v || []\<close>\<close>

definition or_empty :: "json option \<Rightarrow> json" where
  "or_empty v = (case v of None \<Rightarrow> JArr [] | Some j \<Rightarrow> if truthy v then j else JArr [])"

fun join_comma :: "string list \<Rightarrow> string" where
  "join_comma [] = []"
| "join_comma [s] = s"
| "join_comma (s # t # ss) = s @ '','' @ join_comma (t # ss)"

text \<open>\<open>String(v)\<close>: an array prints its elements joined by commas, \<open>null\<close> elements as
  the empty string.\<close>

fun js_String :: "json \<Rightarrow> string" and js_element :: "json \<Rightarrow> string" where
  "js_String JNull = ''null''"
| "js_String (JBool b) = (if b then ''true'' else ''false'')"
| "js_String (JNum nz p) = p"
| "js_String (JStr s) = s"
| "js_String (JArr xs) = join_comma (map js_element xs)"
| "js_String (JObj kvs) = ''[object Object]''"
| "js_element JNull = []"
| "js_element (JBool b) = js_String (JBool b)"
| "js_element (JNum nz p) = js_String (JNum nz p)"
| "js_element (JStr s) = js_String (JStr s)"
| "js_element (JArr xs) = js_String (JArr xs)"
| "js_element (JObj kvs) = js_String (JObj kvs)"

definition String_of :: "json option \<Rightarrow> string" where
  "String_of v = (case v of None \<Rightarrow> ''undefined'' | Some j \<Rightarrow> js_String j)"

text \<open>\<open>toLowerCase\<close> on the letters A to Z; the result is only compared with
  \<open>'multiple_choice'\<close>.\<close>

definition toLowerCase :: "string \<Rightarrow> string" where
  "toLowerCase s =
     map (\<lambda>c. let n = (of_char c :: nat) in if 65 \<le> n \<and> n \<le> 90 then char_of (n + 32) else c) s"

text \<open>
  The generator: the call is rejected upstream, or it answers text that \<open>JSON.parse\<close>
  rejects, or text that parses. Stripping the code fences and parsing are the library's.
\<close>

datatype generated = Rejected | Unparseable | Parsed json

record content =
  questions :: json
  flashcards :: json

definition fallback_content :: "bool \<Rightarrow> content" where
  "fallback_content includeFlashcards =
     \<lparr>questions =
        JArr [JObj [(''question'', JStr ''Error occurred. Is this a test?''),
                    (''type'', JStr ''true_false''), (''answer'', JStr ''True'')]],
      flashcards =
        (if includeFlashcards
         then JArr [JObj [(''term'', JStr ''Error''), (''definition'', JStr ''Try again later'')]]
         else JArr [])\<rparr>"

definition generateContent :: "generated \<Rightarrow> bool \<Rightarrow> content" where
  "generateContent g includeFlashcards =
     (case g of
        Rejected \<Rightarrow> fallback_content includeFlashcards
      | Unparseable \<Rightarrow> fallback_content includeFlashcards
      | Parsed c \<Rightarrow>
          (case property c ''questions'' of
             Inl e \<Rightarrow> fallback_content includeFlashcards
           | Inr qs \<Rightarrow>
               (case property c ''flashcards'' of
                  Inl e \<Rightarrow> fallback_content includeFlashcards
                | Inr fs \<Rightarrow>
                    \<lparr>questions = or_empty qs,
                     flashcards = (if includeFlashcards then or_empty fs else JArr [])\<rparr>)))"

definition generateMockTest :: "generated \<Rightarrow> error + json" where
  "generateMockTest g =
     (case g of
        Rejected \<Rightarrow> Inl GeneratorError
      | Unparseable \<Rightarrow> Inl SyntaxError
      | Parsed j \<Rightarrow> Inr j)"

subsection \<open>Sanitizing\<close>

record question =
  q_question :: string
  q_type :: string
  q_options :: "string list"
  q_answer :: string

record flashcard =
  f_term :: string
  f_definition :: string

definition sanitize_question :: "json \<Rightarrow> error + question" where
  "sanitize_question q =
     (case property q ''question'' of
        Inl e \<Rightarrow> Inl e
      | Inr qq \<Rightarrow>
          (case property q ''type'' of
             Inl e \<Rightarrow> Inl e
           | Inr ty \<Rightarrow>
               (case property q ''answer'' of
                  Inl e \<Rightarrow> Inl e
                | Inr an \<Rightarrow>
                    if \<not> truthy qq \<or> \<not> truthy ty \<or> \<not> truthy an then Inl InvalidQuestionStructure
                    else
                      (case ty of
                         Some (JStr s) \<Rightarrow>
                           Inr \<lparr>q_question = String_of qq, q_type = s,
                                q_options =
                                  (if toLowerCase s = ''multiple_choice''
                                   then (case property q ''options'' of
                                           Inr (Some (JArr os)) \<Rightarrow> map js_String os
                                         | _ \<Rightarrow> [])
                                   else [''True'', ''False'']),
                                q_answer = String_of an\<rparr>
                       | _ \<Rightarrow> Inl TypeError))))"

definition sanitize_flashcard :: "json \<Rightarrow> error + flashcard" where
  "sanitize_flashcard f =
     (case property f ''term'' of
        Inl e \<Rightarrow> Inl e
      | Inr t \<Rightarrow>
          (case property f ''definition'' of
             Inl e \<Rightarrow> Inl e
           | Inr d \<Rightarrow>
               if \<not> truthy t \<or> \<not> truthy d then Inl InvalidFlashcardStructure
               else Inr \<lparr>f_term = String_of t, f_definition = String_of d\<rparr>))"

text \<open>\<open>array.map(f)\<close> where \<open>f\<close> may throw: the first throw ends the loop.\<close>

fun map_throwing :: "('a \<Rightarrow> error + 'b) \<Rightarrow> 'a list \<Rightarrow> error + 'b list" where
  "map_throwing f [] = Inr []"
| "map_throwing f (x # xs) =
     (case f x of
        Inl e \<Rightarrow> Inl e
      | Inr y \<Rightarrow> (case map_throwing f xs of Inl e \<Rightarrow> Inl e | Inr ys \<Rightarrow> Inr (y # ys)))"

text \<open>\<open>v.map(f)\<close> on a value that is not an array is a \<open>TypeError\<close>.\<close>

definition map_json :: "(json \<Rightarrow> error + 'b) \<Rightarrow> json \<Rightarrow> error + 'b list" where
  "map_json f v = (case v of JArr xs \<Rightarrow> map_throwing f xs | _ \<Rightarrow> Inl TypeError)"

definition sanitize :: "content \<Rightarrow> error + question list \<times> flashcard list" where
  "sanitize c =
     (case map_json sanitize_question (questions c) of
        Inl e \<Rightarrow> Inl e
      | Inr qs \<Rightarrow>
          (case map_json sanitize_flashcard (or_empty (Some (flashcards c))) of
             Inl e \<Rightarrow> Inl e
           | Inr fs \<Rightarrow> Inr (qs, fs)))"

section \<open>Generation routes\<close>

text \<open>
  The store as the three generation routes see it. \<open>addDoc\<close> appends a document under a
  fresh id, so a collection of artifacts is the list of documents added so far.
\<close>

record pdf_details =
  total_pages :: int
  processed_start :: int
  processed_end :: int
  pd_num_questions :: int
  pd_num_options :: int
  pd_include_flashcards :: json

record quiz_doc =
  quiz_id :: string
  content_name :: string
  quiz_user_id :: string
  quiz_created_at :: millis
  pdf_source :: "pdf_details option"
  quiz_questions :: "question list"
  quiz_flashcards :: "flashcard list"

record mock_test_doc =
  test_id :: string
  mt_user_id :: string
  mt_topic :: string
  mt_difficulty :: string
  mt_num_questions :: int
  mt_created_at :: millis
  test_data :: json
  pdf_path :: string

record world =
  users :: user_docs
  quizzes :: "quiz_doc list"
  mock_tests :: "mock_test_doc list"

definition addDoc :: "outcome \<Rightarrow> 'a list \<Rightarrow> 'a \<Rightarrow> error + 'a list" where
  "addDoc oc coll d = (case oc of Throws \<Rightarrow> Inl StoreError | Succeeds \<Rightarrow> Inr (coll @ [d]))"

text \<open>
  What a request meets on its way and does not decide: the outcome of each store call
  (two in \<open>checkUserUsage\<close>, the \<open>addDoc\<close>, two in \<open>decrementFreeUsage\<close>), the clock at the
  usage check and at the artifact's \<open>created_at\<close>, the generator's answer, the id drawn by
  \<open>generateQuizId\<close>, what \<open>pdfParse\<close> makes of the upload (page count, or a rejection) and
  whether writing the mock test's PDF file succeeds.
\<close>

record env =
  usage_read :: outcome
  usage_write :: outcome
  clock :: millis
  generator :: generated
  new_id :: string
  stamp :: millis
  add_doc :: outcome
  consume_read :: outcome
  consume_write :: outcome
  pdf_parse :: "int option"
  pdf_write :: outcome

datatype response =
    BadRequest string
  | InvalidPageRange int int int
  | LimitReached status int
  | ServerError string error
  | ContentCreated string string string status int "question list" "flashcard list"
  | PdfContentCreated string string string pdf_details status int "question list" "flashcard list"
  | MockTestCreated string string string int status int

fun http_status :: "response \<Rightarrow> nat" where
  "http_status (BadRequest m) = 400"
| "http_status (InvalidPageRange t s e) = 400"
| "http_status (LimitReached st n) = 403"
| "http_status (ServerError m e) = 500"
| "http_status (ContentCreated u i c st n qs fs) = 201"
| "http_status (PdfContentCreated u i c d st n qs fs) = 201"
| "http_status (MockTestCreated i t d n st r) = 201"

text \<open>
  The last step of each of the three routes, after the artifact is saved:
  \<open>let remainingFree = usageStatus.remainingFree;
   if (usageStatus.subscriptionStatus === 'free') remainingFree = await decrementFreeUsage(user_id)\<close>
\<close>

definition consume_if_free :: "env \<Rightarrow> usage \<Rightarrow> user_docs \<Rightarrow> string \<Rightarrow> user_docs \<times> int" where
  "consume_if_free ev usageStatus db uid =
     (if subscriptionStatus usageStatus = Free
      then decrementFreeUsage (consume_read ev) (consume_write ev) db uid
      else (db, remainingFree usageStatus))"

subsection \<open>\<open>POST /api/create_content\<close>\<close>

text \<open>
  The strings of the request body, the empty string standing for a missing field.
  \<open>num_questions\<close> and \<open>num_options\<close> only enter the prompt, whose answer is given by the
  environment. \<open>include_flashcards\<close> is the value sent, if any.
\<close>

record create_content_req =
  cc_text :: string
  cc_question_type :: string
  cc_include_flashcards :: "json option"
  cc_content_name :: string
  cc_user_id :: string

definition create_content :: "env \<Rightarrow> create_content_req \<Rightarrow> world \<Rightarrow> world \<times> response" where
  "create_content ev req w =
     (if cc_text req = [] \<or> cc_question_type req = [] \<or> cc_content_name req = [] \<or>
         cc_user_id req = []
      then (w, BadRequest ''Text, question_type, content_name, and user_id are required'')
      else
        (case checkUserUsage (usage_read ev) (usage_write ev) (clock ev) (users w) (cc_user_id req) of
           (db1, Inl e) \<Rightarrow> (w\<lparr>users := db1\<rparr>, ServerError ''Error saving content'' e)
         | (db1, Inr usageStatus) \<Rightarrow>
             if \<not> canGenerate usageStatus then
               (w\<lparr>users := db1\<rparr>,
                LimitReached (subscriptionStatus usageStatus) (remainingFree usageStatus))
             else
               (case sanitize (generateContent (generator ev)
                                 (cc_include_flashcards req = Some (JBool True))) of
                  Inl e \<Rightarrow> (w\<lparr>users := db1\<rparr>, ServerError ''Error saving content'' e)
                | Inr (qs, fs) \<Rightarrow>
                    (case addDoc (add_doc ev) (quizzes w)
                            \<lparr>quiz_id = new_id ev, content_name = cc_content_name req,
                             quiz_user_id = cc_user_id req, quiz_created_at = stamp ev,
                             pdf_source = None, quiz_questions = qs, quiz_flashcards = fs\<rparr> of
                       Inl e \<Rightarrow> (w\<lparr>users := db1\<rparr>, ServerError ''Error saving content'' e)
                     | Inr quizzes' \<Rightarrow>
                         (case consume_if_free ev usageStatus db1 (cc_user_id req) of
                            (db2, remaining) \<Rightarrow>
                              (w\<lparr>users := db2, quizzes := quizzes'\<rparr>,
                               ContentCreated (cc_user_id req) (new_id ev) (cc_content_name req)
                                 (subscriptionStatus usageStatus) remaining qs fs))))))"

subsection \<open>\<open>POST /api/upload_pdf\<close>\<close>

text \<open>
  \<open>up_num_questions\<close>, \<open>up_num_options\<close>, \<open>up_start_page\<close> and \<open>up_end_page\<close> are what
  \<open>parseInt\<close> makes of the fields, \<open>None\<close> for a missing or unreadable one (the route's
  defaults for a missing field are the ones it falls back to on \<open>NaN\<close>).
  \<open>up_include_flashcards\<close> defaults to \<open>true\<close>. The text cut out of the parsed PDF only
  enters the prompt.
\<close>

record upload_pdf_req =
  up_file :: bool
  up_user_id :: string
  up_content_name :: string
  up_num_questions :: "int option"
  up_num_options :: "int option"
  up_include_flashcards :: "json option"
  up_start_page :: "int option"
  up_end_page :: "int option"

text \<open>\<open>parseInt(x) || d\<close>\<close>

definition or_default :: "int option \<Rightarrow> int \<Rightarrow> int" where
  "or_default x d = (case x of None \<Rightarrow> d | Some n \<Rightarrow> if n = 0 then d else n)"

definition upload_pdf :: "env \<Rightarrow> upload_pdf_req \<Rightarrow> world \<Rightarrow> world \<times> response" where
  "upload_pdf ev req w =
     (if \<not> up_file req then (w, BadRequest ''No PDF file uploaded'')
      else if up_user_id req = [] \<or> up_content_name req = [] then
        (w, BadRequest ''user_id and content_name are required'')
      else
        (case checkUserUsage (usage_read ev) (usage_write ev) (clock ev) (users w) (up_user_id req) of
           (db1, Inl e) \<Rightarrow> (w\<lparr>users := db1\<rparr>, ServerError ''Error processing PDF'' e)
         | (db1, Inr usageStatus) \<Rightarrow>
             if \<not> canGenerate usageStatus then
               (w\<lparr>users := db1\<rparr>,
                LimitReached (subscriptionStatus usageStatus) (remainingFree usageStatus))
             else
               (case pdf_parse ev of
                  None \<Rightarrow> (w\<lparr>users := db1\<rparr>, ServerError ''Error processing PDF'' PdfParseError)
                | Some totalPages \<Rightarrow>
                    let numQuestions = min (max (or_default (up_num_questions req) 10) 1) 50;
                        numOptions = min (max (or_default (up_num_options req) 4) 2) 6;
                        include_flashcards =
                          (case up_include_flashcards req of None \<Rightarrow> JBool True | Some v \<Rightarrow> v);
                        startPage = or_default (up_start_page req) 1;
                        endPage = or_default (up_end_page req) totalPages;
                        start = max 1 startPage;
                        end = min totalPages endPage
                    in
                      if start > end \<or> start < 1 \<or> end > totalPages then
                        (w\<lparr>users := db1\<rparr>, InvalidPageRange totalPages start end)
                      else
                        (case sanitize (generateContent (generator ev)
                                          (include_flashcards = JBool True)) of
                           Inl e \<Rightarrow> (w\<lparr>users := db1\<rparr>, ServerError ''Error processing PDF'' e)
                         | Inr (qs, fs) \<Rightarrow>
                             let details =
                                   \<lparr>total_pages = totalPages, processed_start = start,
                                    processed_end = end, pd_num_questions = numQuestions,
                                    pd_num_options = numOptions,
                                    pd_include_flashcards = include_flashcards\<rparr>
                             in
                               (case addDoc (add_doc ev) (quizzes w)
                                       \<lparr>quiz_id = new_id ev, content_name = up_content_name req,
                                        quiz_user_id = up_user_id req,
                                        quiz_created_at = stamp ev, pdf_source = Some details,
                                        quiz_questions = qs, quiz_flashcards = fs\<rparr> of
                                  Inl e \<Rightarrow>
                                    (w\<lparr>users := db1\<rparr>, ServerError ''Error processing PDF'' e)
                                | Inr quizzes' \<Rightarrow>
                                    (case consume_if_free ev usageStatus db1 (up_user_id req) of
                                       (db2, remaining) \<Rightarrow>
                                         (w\<lparr>users := db2, quizzes := quizzes'\<rparr>,
                                          PdfContentCreated (up_user_id req) (new_id ev)
                                            (up_content_name req) details
                                            (subscriptionStatus usageStatus) remaining qs fs)))))))"

subsection \<open>\<open>POST /api/mock-test/generate\<close>\<close>

text \<open>
  \<open>createMockTestPDF\<close> reads \<open>mock_test\<close> and its fields, walks \<open>mock_test.questions\<close> and
  the \<open>options\<close> of each question, and writes the file. Reading a field of \<open>null\<close> or
  \<open>undefined\<close> and calling \<open>forEach\<close> on a value that is not an array are \<open>TypeError\<close>s,
  caught and handed to \<open>reject\<close>; so is a failure of the PDF library or of the file stream.
\<close>

definition printable_question :: "json \<Rightarrow> bool" where
  "printable_question q =
     (case property q ''options'' of Inr (Some (JArr os)) \<Rightarrow> True | _ \<Rightarrow> False)"

text \<open>\<open>mockTestData.mock_test\<close> once \<open>createMockTestPDF\<close> has read it and found an
  object.\<close>

definition mock_test_of :: "json \<Rightarrow> json" where
  "mock_test_of mockTestData =
     (case property mockTestData ''mock_test'' of Inr (Some mt) \<Rightarrow> mt | _ \<Rightarrow> JNull)"

definition createMockTestPDF :: "outcome \<Rightarrow> json \<Rightarrow> error + unit" where
  "createMockTestPDF wr mockTestData =
     (case property mockTestData ''mock_test'' of
        Inl e \<Rightarrow> Inl e
      | Inr None \<Rightarrow> Inl TypeError
      | Inr (Some mt) \<Rightarrow>
          (case property mt ''questions'' of
             Inr (Some (JArr qs)) \<Rightarrow>
               if list_all printable_question qs
               then (case wr of Throws \<Rightarrow> Inl PdfWriteError | Succeeds \<Rightarrow> Inr ())
               else Inl TypeError
           | _ \<Rightarrow> Inl TypeError))"

text \<open>
  The fields of the request body: strings, the empty string standing for a missing field,
  and \<open>num_questions\<close> a number, 0 standing for a missing one (both fail the check of
  required fields). The number of questions asked for only enters the prompt.
\<close>

record mock_test_req =
  mr_topic :: string
  mr_description :: string
  mr_difficulty :: string
  mr_num_questions :: int
  mr_user_id :: string

definition mock_test_generate :: "env \<Rightarrow> mock_test_req \<Rightarrow> world \<Rightarrow> world \<times> response" where
  "mock_test_generate ev req w =
     (if mr_topic req = [] \<or> mr_description req = [] \<or> mr_difficulty req = [] \<or>
         mr_num_questions req = 0 \<or> mr_user_id req = []
      then (w, BadRequest ''Missing required fields'')
      else
        (case checkUserUsage (usage_read ev) (usage_write ev) (clock ev) (users w) (mr_user_id req) of
           (db1, Inl e) \<Rightarrow> (w\<lparr>users := db1\<rparr>, ServerError ''Error generating mock test'' e)
         | (db1, Inr usageStatus) \<Rightarrow>
             if \<not> canGenerate usageStatus then
               (w\<lparr>users := db1\<rparr>,
                LimitReached (subscriptionStatus usageStatus) (remainingFree usageStatus))
             else
               (case generateMockTest (generator ev) of
                  Inl e \<Rightarrow> (w\<lparr>users := db1\<rparr>, ServerError ''Error generating mock test'' e)
                | Inr mockTestData \<Rightarrow>
                    (case createMockTestPDF (pdf_write ev) mockTestData of
                       Inl e \<Rightarrow> (w\<lparr>users := db1\<rparr>, ServerError ''Error generating mock test'' e)
                     | Inr u \<Rightarrow>
                         (case addDoc (add_doc ev) (mock_tests w)
                                 \<lparr>test_id = new_id ev, mt_user_id = mr_user_id req,
                                  mt_topic = mr_topic req, mt_difficulty = mr_difficulty req,
                                  mt_num_questions = mr_num_questions req,
                                  mt_created_at = stamp ev,
                                  test_data = mock_test_of mockTestData,
                                  pdf_path = ''mock_test_'' @ new_id ev @ ''.pdf''\<rparr> of
                            Inl e \<Rightarrow>
                              (w\<lparr>users := db1\<rparr>, ServerError ''Error generating mock test'' e)
                          | Inr mock_tests' \<Rightarrow>
                              (case consume_if_free ev usageStatus db1 (mr_user_id req) of
                                 (db2, remaining) \<Rightarrow>
                                   (w\<lparr>users := db2, mock_tests := mock_tests'\<rparr>,
                                    MockTestCreated (new_id ev) (mr_topic req) (mr_difficulty req)
                                      (mr_num_questions req)
                                      (subscriptionStatus usageStatus) remaining)))))))"

subsection \<open>A run of generation requests\<close>

datatype request =
    CreateContent create_content_req
  | UploadPdf upload_pdf_req
  | MockTestGenerate mock_test_req

fun handle :: "env \<Rightarrow> request \<Rightarrow> world \<Rightarrow> world \<times> response" where
  "handle ev (CreateContent r) w = create_content ev r w"
| "handle ev (UploadPdf r) w = upload_pdf ev r w"
| "handle ev (MockTestGenerate r) w = mock_test_generate ev r w"

fun requester :: "request \<Rightarrow> string" where
  "requester (CreateContent r) = cc_user_id r"
| "requester (UploadPdf r) = up_user_id r"
| "requester (MockTestGenerate r) = mr_user_id r"

text \<open>The flag a route hands to \<open>generateContent\<close>: \<open>include_flashcards === true\<close>.\<close>

fun include_flag :: "request \<Rightarrow> bool" where
  "include_flag (CreateContent r) = (cc_include_flashcards r = Some (JBool True))"
| "include_flag (UploadPdf r) =
     ((case up_include_flashcards r of None \<Rightarrow> JBool True | Some v \<Rightarrow> v) = JBool True)"
| "include_flag (MockTestGenerate r) = False"

text \<open>Requests served one after the other, each with what it meets.\<close>

fun serve :: "(env \<times> request) list \<Rightarrow> world \<Rightarrow> world" where
  "serve [] w = w"
| "serve ((ev, r) # rs) w = serve rs (fst (handle ev r w))"

subsection \<open>Sample records\<close>

definition free_user :: "int \<Rightarrow> user_doc" where
  "free_user n =
     \<lparr>user_id = Some ''u1'', free_generations_remaining = n, subscription_status = Free,
      subscription_expiry = None, created_at = 0\<rparr>"

definition subscriber :: "status \<Rightarrow> millis option \<Rightarrow> int \<Rightarrow> user_doc" where
  "subscriber st expiry n =
     \<lparr>user_id = Some ''u1'', free_generations_remaining = n, subscription_status = st,
      subscription_expiry = expiry, created_at = 0\<rparr>"

text \<open>A host on UTC, and a host on the eastern time of the United States with its
  transitions of 2024: daylight saving from 10 March, 2 o'clock local standard time, to
  3 November, 2 o'clock local daylight time. A local time that the change of March skips
  is taken at the standard offset and one that the change of November repeats at the
  daylight offset, the offset before the transition, as the standard has it.\<close>

definition utc_zone :: zone where
  "utc_zone = \<lparr>offset_at_utc = (\<lambda>t. 0), offset_at_local = (\<lambda>t. 0)\<rparr>"

definition eastern_2024 :: zone where
  "eastern_2024 =
     \<lparr>offset_at_utc =
        (\<lambda>t. if 1710054000000 \<le> t \<and> t < 1730613600000 then - 14400000 else - 18000000),
      offset_at_local =
        (\<lambda>t. if 1710039600000 \<le> t \<and> t < 1730599200000 then - 14400000 else - 18000000)\<rparr>"

definition one_user :: "user_doc \<Rightarrow> world" where
  "one_user d = \<lparr>users = [''u1'' \<mapsto> d], quizzes = [], mock_tests = []\<rparr>"

text \<open>An environment in which every store call succeeds and the generator is rejected
  upstream, and one in which the generator answers a quiz and \<open>addDoc\<close> rejects.\<close>

definition upstream_down :: env where
  "upstream_down =
     \<lparr>usage_read = Succeeds, usage_write = Succeeds, clock = 50, generator = Rejected,
      new_id = ''abc123'', stamp = 51, add_doc = Succeeds, consume_read = Succeeds,
      consume_write = Succeeds, pdf_parse = Some 3, pdf_write = Succeeds\<rparr>"

definition store_down :: env where
  "store_down =
     \<lparr>usage_read = Succeeds, usage_write = Succeeds, clock = 50,
      generator =
        Parsed (JObj [(''questions'',
                       JArr [JObj [(''question'', JStr ''Is water wet?''),
                                   (''type'', JStr ''true_false''),
                                   (''answer'', JStr ''True'')]])]),
      new_id = ''abc123'', stamp = 51, add_doc = Throws, consume_read = Succeeds,
      consume_write = Succeeds, pdf_parse = Some 3, pdf_write = Succeeds\<rparr>"

definition quiz_request :: create_content_req where
  "quiz_request =
     \<lparr>cc_text = ''Photosynthesis'', cc_question_type = ''mix'',
      cc_include_flashcards = Some (JBool True), cc_content_name = ''Biology'',
      cc_user_id = ''u1''\<rparr>"

definition mock_request :: mock_test_req where
  "mock_request =
     \<lparr>mr_topic = ''Algebra'', mr_description = ''Linear equations'', mr_difficulty = ''easy'',
      mr_num_questions = 5, mr_user_id = ''u1''\<rparr>"

section \<open>Properties of the metering operations\<close>

lemma decrementFreeUsage_present:
  "db uid = Some r \<Longrightarrow>
   decrementFreeUsage Succeeds Succeeds db uid =
     (if subscription_status r = Free \<and> 0 < free_generations_remaining r
      then (db(uid \<mapsto> r\<lparr>free_generations_remaining := free_generations_remaining r - 1\<rparr>),
            free_generations_remaining r - 1)
      else (db, 0))"
  by (simp add: decrementFreeUsage_def getDoc_def updateDoc_def)

lemma decrementFreeUsage_cases:
  "decrementFreeUsage rd wr db uid = (db, 0) \<or>
   (\<exists>r. db uid = Some r \<and> subscription_status r = Free \<and> 0 < free_generations_remaining r \<and>
        rd = Succeeds \<and> wr = Succeeds \<and>
        decrementFreeUsage rd wr db uid =
          (db(uid \<mapsto> r\<lparr>free_generations_remaining := free_generations_remaining r - 1\<rparr>),
           free_generations_remaining r - 1))"
  by (cases rd; cases wr; cases "db uid")
     (auto simp: decrementFreeUsage_def getDoc_def updateDoc_def)

lemma decrementFreeUsage_other:
  "uid' \<noteq> uid \<Longrightarrow> fst (decrementFreeUsage rd wr db uid') uid = db uid"
  by (auto simp: decrementFreeUsage_def getDoc_def updateDoc_def
           split: outcome.splits option.splits)

lemma checkUserUsage_absent:
  "db uid = None \<Longrightarrow>
   checkUserUsage Succeeds Succeeds now db uid =
     (db(uid \<mapsto> new_profile uid now),
      Inr \<lparr>canGenerate = True, remainingFree = 10, subscriptionStatus = Free\<rparr>)"
  by (simp add: checkUserUsage_def getDoc_def setDoc_def)

lemma checkUserUsage_subscribed:
  "db uid = Some r \<Longrightarrow> subscription_status r \<noteq> Free \<Longrightarrow>
   subscription_expiry r = Some e \<Longrightarrow> now < e \<Longrightarrow>
   checkUserUsage Succeeds wr now db uid =
     (db, Inr \<lparr>canGenerate = True, remainingFree = 0,
               subscriptionStatus = subscription_status r\<rparr>)"
  by (simp add: checkUserUsage_def getDoc_def still_valid_def)

lemma checkUserUsage_lapsed:
  "db uid = Some r \<Longrightarrow> subscription_status r \<noteq> Free \<Longrightarrow>
   \<not> still_valid (subscription_expiry r) now \<Longrightarrow>
   checkUserUsage Succeeds Succeeds now db uid =
     (db(uid \<mapsto> revert_to_free r), Inr (free_tier r))"
  by (simp add: checkUserUsage_def getDoc_def updateDoc_def)

lemma checkUserUsage_free:
  "db uid = Some r \<Longrightarrow> subscription_status r = Free \<Longrightarrow>
   checkUserUsage Succeeds wr now db uid = (db, Inr (free_tier r))"
  by (simp add: checkUserUsage_def getDoc_def)

lemma checkUserUsage_read_throws:
  "checkUserUsage Throws wr now db uid = (db, Inl StoreError)"
  by (simp add: checkUserUsage_def getDoc_def)

lemma checkUserUsage_other:
  "uid' \<noteq> uid \<Longrightarrow> fst (checkUserUsage rd wr now db uid') uid = db uid"
  by (auto simp: checkUserUsage_def getDoc_def setDoc_def updateDoc_def
           split: outcome.splits option.splits)

text \<open>
  C1. When the record exists and the store answers, \<open>decrementFreeUsage\<close> writes the
  counter minus one and returns it exactly when the status is free and the counter is
  positive, and otherwise returns 0 and writes nothing. With no record it returns 0 and
  writes nothing, whatever the store does. Whatever the store does, the record afterwards is
  the record before or the record with its counter one lower and still at least 0.
\<close>

theorem consume_decrements_only_free_positive:
  "(\<forall>r. db uid = Some r \<longrightarrow>
        decrementFreeUsage Succeeds Succeeds db uid =
          (if subscription_status r = Free \<and> 0 < free_generations_remaining r
           then (db(uid \<mapsto> r\<lparr>free_generations_remaining := free_generations_remaining r - 1\<rparr>),
                 free_generations_remaining r - 1)
           else (db, 0)))
   \<and> (db uid = None \<longrightarrow> decrementFreeUsage rd wr db uid = (db, 0))
   \<and> (\<forall>r r'. db uid = Some r \<and> fst (decrementFreeUsage rd wr db uid) uid = Some r' \<longrightarrow>
         r' = r \<or>
         (r' = r\<lparr>free_generations_remaining := free_generations_remaining r - 1\<rparr> \<and>
          0 \<le> free_generations_remaining r'))"
  using decrementFreeUsage_present[of db uid] decrementFreeUsage_cases[of rd wr db uid]
  by (auto simp: decrementFreeUsage_def getDoc_def split: outcome.splits)

theorem consume_decrements_only_free_positive_witness:
  "decrementFreeUsage Succeeds Succeeds [''u1'' \<mapsto> free_user 1] ''u1''
     = ([''u1'' \<mapsto> free_user 0], 0)
   \<and> decrementFreeUsage Succeeds Succeeds [''u1'' \<mapsto> free_user 0] ''u1''
     = ([''u1'' \<mapsto> free_user 0], 0)
   \<and> decrementFreeUsage Succeeds Succeeds [''u1'' \<mapsto> subscriber Monthly (Some 5) 3] ''u1''
     = ([''u1'' \<mapsto> subscriber Monthly (Some 5) 3], 0)
   \<and> decrementFreeUsage Succeeds Succeeds [''u1'' \<mapsto> free_user 1] ''u2''
     = ([''u1'' \<mapsto> free_user 1], 0)"
  using consume_decrements_only_free_positive
          [of "[''u1'' \<mapsto> free_user 1]" "''u1''" Succeeds Succeeds]
        consume_decrements_only_free_positive
          [of "[''u1'' \<mapsto> free_user 0]" "''u1''" Succeeds Succeeds]
        consume_decrements_only_free_positive
          [of "[''u1'' \<mapsto> subscriber Monthly (Some 5) 3]" "''u1''" Succeeds Succeeds]
        consume_decrements_only_free_positive
          [of "[''u1'' \<mapsto> free_user 1]" "''u2''" Succeeds Succeeds]
  by (simp add: free_user_def subscriber_def)

text \<open>
  C2. For a user id with no record, \<open>checkUserUsage\<close> (the store answering) creates the
  record with 10 free generations, status free, no expiry and \<open>created_at\<close> the clock, and
  returns allowed, 10 remaining, status free.
\<close>

theorem first_evaluate_creates_profile:
  "db uid = None \<Longrightarrow>
   checkUserUsage Succeeds Succeeds now db uid =
     (db(uid \<mapsto> \<lparr>user_id = Some uid, free_generations_remaining = 10,
                  subscription_status = Free, subscription_expiry = None,
                  created_at = now\<rparr>),
      Inr \<lparr>canGenerate = True, remainingFree = 10, subscriptionStatus = Free\<rparr>)"
  using checkUserUsage_absent[of db uid now] by (simp add: new_profile_def)

theorem first_evaluate_creates_profile_witness:
  "checkUserUsage Succeeds Succeeds 1700000000000 Map.empty ''u1'' =
     ([''u1'' \<mapsto> \<lparr>user_id = Some ''u1'', free_generations_remaining = 10,
                   subscription_status = Free, subscription_expiry = None,
                   created_at = 1700000000000\<rparr>],
      Inr \<lparr>canGenerate = True, remainingFree = 10, subscriptionStatus = Free\<rparr>)"
  using first_evaluate_creates_profile[of Map.empty "''u1''" 1700000000000] by simp

text \<open>
  C4. For a record whose status is not free and whose expiry is missing or not after the
  clock, \<open>checkUserUsage\<close> (the store answering) rewrites status to free and expiry to null,
  keeps the counter, and returns the free-tier decision on that counter: allowed exactly
  when it is positive.
\<close>

theorem evaluate_normalizes_lapsed:
  assumes "db uid = Some r" and "subscription_status r \<noteq> Free"
    and "subscription_expiry r = None \<or> (\<exists>e. subscription_expiry r = Some e \<and> e \<le> now)"
  shows "checkUserUsage Succeeds Succeeds now db uid =
     (db(uid \<mapsto> r\<lparr>subscription_status := Free, subscription_expiry := None\<rparr>),
      Inr \<lparr>canGenerate = (0 < free_generations_remaining r),
           remainingFree =
             (if 0 < free_generations_remaining r then free_generations_remaining r else 0),
           subscriptionStatus = Free\<rparr>)"
proof -
  from assms(3) have "\<not> still_valid (subscription_expiry r) now"
    by (auto simp: still_valid_def)
  with assms(1,2) checkUserUsage_lapsed[of db uid r now] show ?thesis
    by (simp add: revert_to_free_def free_tier_def)
qed

theorem evaluate_normalizes_lapsed_witness:
  "checkUserUsage Succeeds Succeeds 200 [''u1'' \<mapsto> subscriber Yearly (Some 100) 7] ''u1'' =
     ([''u1'' \<mapsto> free_user 7],
      Inr \<lparr>canGenerate = True, remainingFree = 7, subscriptionStatus = Free\<rparr>)
   \<and> checkUserUsage Succeeds Succeeds 200 [''u1'' \<mapsto> subscriber Monthly None 0] ''u1'' =
     ([''u1'' \<mapsto> free_user 0],
      Inr \<lparr>canGenerate = False, remainingFree = 0, subscriptionStatus = Free\<rparr>)"
  using evaluate_normalizes_lapsed
          [of "[''u1'' \<mapsto> subscriber Yearly (Some 100) 7]" "''u1''"
              "subscriber Yearly (Some 100) 7" 200]
        evaluate_normalizes_lapsed
          [of "[''u1'' \<mapsto> subscriber Monthly None 0]" "''u1''" "subscriber Monthly None 0" 200]
  by (simp add: free_user_def subscriber_def)

text \<open>
  C9. On a record that exists and is normalized at both clock readings (status free, or
  another status with its expiry after both), a first \<open>checkUserUsage\<close> leaves the store as
  it was, and a second one on the store it left returns the same result and the same
  store. The same holds for the record a first call has just created.
\<close>

theorem evaluate_idempotent_on_stable_state:
  "(\<forall>r. db uid = Some r \<and>
         (subscription_status r = Free \<or>
          (\<exists>e. subscription_expiry r = Some e \<and> now < e \<and> now' < e)) \<longrightarrow>
      fst (checkUserUsage Succeeds wr now db uid) = db \<and>
      checkUserUsage Succeeds wr' now' (fst (checkUserUsage Succeeds wr now db uid)) uid =
        checkUserUsage Succeeds wr now db uid)
   \<and> (db uid = None \<longrightarrow>
      checkUserUsage Succeeds wr' now' (fst (checkUserUsage Succeeds Succeeds now db uid)) uid =
        checkUserUsage Succeeds Succeeds now db uid)"
proof (intro conjI allI impI)
  fix r
  assume a: "db uid = Some r \<and>
         (subscription_status r = Free \<or>
          (\<exists>e. subscription_expiry r = Some e \<and> now < e \<and> now' < e))"
  show "fst (checkUserUsage Succeeds wr now db uid) = db"
  proof (cases "subscription_status r = Free")
    case True
    with a checkUserUsage_free[of db uid r wr now] show ?thesis by simp
  next
    case False
    with a checkUserUsage_subscribed[of db uid r _ now wr] show ?thesis by auto
  qed
  show "checkUserUsage Succeeds wr' now' (fst (checkUserUsage Succeeds wr now db uid)) uid =
        checkUserUsage Succeeds wr now db uid"
  proof (cases "subscription_status r = Free")
    case True
    with a checkUserUsage_free[of db uid r wr now] checkUserUsage_free[of db uid r wr' now']
    show ?thesis by simp
  next
    case False
    with a checkUserUsage_subscribed[of db uid r _ now wr]
      checkUserUsage_subscribed[of db uid r _ now' wr']
    show ?thesis by auto
  qed
next
  assume a: "db uid = None"
  have "checkUserUsage Succeeds wr' now' (db(uid \<mapsto> new_profile uid now)) uid =
        (db(uid \<mapsto> new_profile uid now), Inr (free_tier (new_profile uid now)))"
    by (rule checkUserUsage_free) (simp_all add: new_profile_def)
  with a checkUserUsage_absent[of db uid now]
  show "checkUserUsage Succeeds wr' now' (fst (checkUserUsage Succeeds Succeeds now db uid)) uid =
        checkUserUsage Succeeds Succeeds now db uid"
    by (simp add: free_tier_def new_profile_def)
qed

theorem evaluate_idempotent_on_stable_state_witness:
  "checkUserUsage Succeeds Succeeds 60
      (fst (checkUserUsage Succeeds Succeeds 50 [''u1'' \<mapsto> subscriber Monthly (Some 100) 4] ''u1''))
      ''u1''
     = ([''u1'' \<mapsto> subscriber Monthly (Some 100) 4],
        Inr \<lparr>canGenerate = True, remainingFree = 0, subscriptionStatus = Monthly\<rparr>)
   \<and> checkUserUsage Succeeds Succeeds 50 [''u1'' \<mapsto> subscriber Monthly (Some 100) 4] ''u1''
     = ([''u1'' \<mapsto> subscriber Monthly (Some 100) 4],
        Inr \<lparr>canGenerate = True, remainingFree = 0, subscriptionStatus = Monthly\<rparr>)
   \<and> checkUserUsage Succeeds Succeeds 60
      (fst (checkUserUsage Succeeds Succeeds 50 Map.empty ''u1'')) ''u1''
     = checkUserUsage Succeeds Succeeds 50 Map.empty ''u1''"
  using evaluate_idempotent_on_stable_state
          [of "[''u1'' \<mapsto> subscriber Monthly (Some 100) 4]" "''u1''" 50 60 Succeeds Succeeds]
        evaluate_idempotent_on_stable_state
          [of Map.empty "''u1''" 50 60 Succeeds Succeeds]
  by (simp add: subscriber_def checkUserUsage_def getDoc_def still_valid_def)

text \<open>
  C10. For a record whose status is not free and whose expiry is null, the subscription
  read leaves the record as it is and reports the stored status, while \<open>checkUserUsage\<close>
  rewrites the record to status free and reports free: the two disagree.
\<close>

theorem read_paths_disagree_on_missing_expiry:
  assumes "db uid = Some r" and "subscription_status r \<noteq> Free"
    and "subscription_expiry r = None"
  shows "get_subscription Succeeds wr now db uid =
           (db, InfoOk \<lparr>info_user_id = uid,
                        info_free_generations_remaining = free_generations_remaining r,
                        info_subscription_status = subscription_status r,
                        info_subscription_expiry = None\<rparr>)
       \<and> checkUserUsage Succeeds Succeeds now db uid =
           (db(uid \<mapsto> r\<lparr>subscription_status := Free, subscription_expiry := None\<rparr>),
            Inr \<lparr>canGenerate = (0 < free_generations_remaining r),
                 remainingFree =
                   (if 0 < free_generations_remaining r then free_generations_remaining r
                    else 0),
                 subscriptionStatus = Free\<rparr>)
       \<and> (case snd (get_subscription Succeeds wr now db uid) of
            InfoOk i \<Rightarrow> Some (info_subscription_status i) | InfoServerError \<Rightarrow> None)
         \<noteq> (case snd (checkUserUsage Succeeds Succeeds now db uid) of
              Inr u \<Rightarrow> Some (subscriptionStatus u) | Inl e \<Rightarrow> None)"
proof -
  have "\<not> still_valid (subscription_expiry r) now"
    using assms(3) by (simp add: still_valid_def)
  with assms checkUserUsage_lapsed[of db uid r now]
  show ?thesis
    by (simp add: get_subscription_def getDoc_def has_passed_def revert_to_free_def
                  free_tier_def)
qed

theorem read_paths_disagree_on_missing_expiry_witness:
  "get_subscription Succeeds Succeeds 200 [''u1'' \<mapsto> subscriber Quarterly None 3] ''u1'' =
     ([''u1'' \<mapsto> subscriber Quarterly None 3],
      InfoOk \<lparr>info_user_id = ''u1'', info_free_generations_remaining = 3,
              info_subscription_status = Quarterly, info_subscription_expiry = None\<rparr>)
   \<and> checkUserUsage Succeeds Succeeds 200 [''u1'' \<mapsto> subscriber Quarterly None 3] ''u1'' =
     ([''u1'' \<mapsto> free_user 3],
      Inr \<lparr>canGenerate = True, remainingFree = 3, subscriptionStatus = Free\<rparr>)"
  using read_paths_disagree_on_missing_expiry
          [of "[''u1'' \<mapsto> subscriber Quarterly None 3]" "''u1''"
              "subscriber Quarterly None 3" Succeeds 200]
  by (simp add: subscriber_def free_user_def)

section \<open>Properties of the generation routes\<close>

lemma create_content_shape:
  assumes "checkUserUsage (usage_read ev) (usage_write ev) (clock ev) (users w) (cc_user_id rq)
             = (db1, res)"
  shows "(fst (create_content ev rq w) = w \<and> http_status (snd (create_content ev rq w)) = 400)
       \<or> (fst (create_content ev rq w) = w\<lparr>users := db1\<rparr> \<and>
          http_status (snd (create_content ev rq w)) \<noteq> 201)
       \<or> (\<exists>usage. res = Inr usage \<and> canGenerate usage \<and>
             http_status (snd (create_content ev rq w)) = 201 \<and> add_doc ev = Succeeds \<and>
             sanitize (generateContent (generator ev) (cc_include_flashcards rq = Some (JBool True)))
               = Inr (quiz_questions (last (quizzes (fst (create_content ev rq w)))),
                      quiz_flashcards (last (quizzes (fst (create_content ev rq w))))) \<and>
             users (fst (create_content ev rq w))
               = fst (consume_if_free ev usage db1 (cc_user_id rq)) \<and>
             quizzes (fst (create_content ev rq w))
               = quizzes w @ [last (quizzes (fst (create_content ev rq w)))] \<and>
             mock_tests (fst (create_content ev rq w)) = mock_tests w)"
  using assms
  by (auto simp: create_content_def addDoc_def split: sum.splits prod.splits outcome.splits)

lemma upload_pdf_shape:
  assumes "checkUserUsage (usage_read ev) (usage_write ev) (clock ev) (users w) (up_user_id rq)
             = (db1, res)"
  shows "(fst (upload_pdf ev rq w) = w \<and> http_status (snd (upload_pdf ev rq w)) = 400)
       \<or> (fst (upload_pdf ev rq w) = w\<lparr>users := db1\<rparr> \<and>
          http_status (snd (upload_pdf ev rq w)) \<noteq> 201)
       \<or> (\<exists>usage. res = Inr usage \<and> canGenerate usage \<and>
             http_status (snd (upload_pdf ev rq w)) = 201 \<and> add_doc ev = Succeeds \<and>
             sanitize (generateContent (generator ev) (include_flag (UploadPdf rq)))
               = Inr (quiz_questions (last (quizzes (fst (upload_pdf ev rq w)))),
                      quiz_flashcards (last (quizzes (fst (upload_pdf ev rq w))))) \<and>
             users (fst (upload_pdf ev rq w))
               = fst (consume_if_free ev usage db1 (up_user_id rq)) \<and>
             quizzes (fst (upload_pdf ev rq w))
               = quizzes w @ [last (quizzes (fst (upload_pdf ev rq w)))] \<and>
             mock_tests (fst (upload_pdf ev rq w)) = mock_tests w)"
  using assms
  by (auto simp: upload_pdf_def addDoc_def Let_def
           split: sum.splits prod.splits outcome.splits option.splits)

lemma mock_test_generate_shape:
  assumes "checkUserUsage (usage_read ev) (usage_write ev) (clock ev) (users w) (mr_user_id rq)
             = (db1, res)"
  shows "(fst (mock_test_generate ev rq w) = w \<and>
          http_status (snd (mock_test_generate ev rq w)) = 400)
       \<or> (fst (mock_test_generate ev rq w) = w\<lparr>users := db1\<rparr> \<and>
          http_status (snd (mock_test_generate ev rq w)) \<noteq> 201)
       \<or> (\<exists>usage j. res = Inr usage \<and> canGenerate usage \<and>
             http_status (snd (mock_test_generate ev rq w)) = 201 \<and> add_doc ev = Succeeds \<and>
             generateMockTest (generator ev) = Inr j \<and>
             createMockTestPDF (pdf_write ev) j = Inr () \<and>
             test_data (last (mock_tests (fst (mock_test_generate ev rq w)))) = mock_test_of j \<and>
             users (fst (mock_test_generate ev rq w))
               = fst (consume_if_free ev usage db1 (mr_user_id rq)) \<and>
             mock_tests (fst (mock_test_generate ev rq w))
               = mock_tests w @ [last (mock_tests (fst (mock_test_generate ev rq w)))] \<and>
             quizzes (fst (mock_test_generate ev rq w)) = quizzes w)"
  using assms
  by (auto simp: mock_test_generate_def addDoc_def Let_def
           split: sum.splits prod.splits outcome.splits option.splits)

text \<open>
  What a generation request can do to the store, whichever route it takes: nothing (a 400);
  what its usage check did and nothing more (a 403, a 500, or a 400 for a page range); or,
  answered 201, the artifact validated and appended, and then the quota step.
\<close>

lemma handle_shape:
  assumes "checkUserUsage (usage_read ev) (usage_write ev) (clock ev) (users w) (requester rq)
             = (db1, res)"
  shows "(fst (handle ev rq w) = w \<and> http_status (snd (handle ev rq w)) = 400)
       \<or> (fst (handle ev rq w) = w\<lparr>users := db1\<rparr> \<and> http_status (snd (handle ev rq w)) \<noteq> 201)
       \<or> (\<exists>usage. res = Inr usage \<and> canGenerate usage \<and>
             http_status (snd (handle ev rq w)) = 201 \<and> add_doc ev = Succeeds \<and>
             users (fst (handle ev rq w)) = fst (consume_if_free ev usage db1 (requester rq)) \<and>
             (((\<forall>r. rq \<noteq> MockTestGenerate r) \<and>
               sanitize (generateContent (generator ev) (include_flag rq))
                 = Inr (quiz_questions (last (quizzes (fst (handle ev rq w)))),
                        quiz_flashcards (last (quizzes (fst (handle ev rq w))))) \<and>
               quizzes (fst (handle ev rq w))
                 = quizzes w @ [last (quizzes (fst (handle ev rq w)))] \<and>
               mock_tests (fst (handle ev rq w)) = mock_tests w)
              \<or> ((\<exists>r. rq = MockTestGenerate r) \<and>
                  (\<exists>j. generateMockTest (generator ev) = Inr j \<and>
                       createMockTestPDF (pdf_write ev) j = Inr () \<and>
                       test_data (last (mock_tests (fst (handle ev rq w)))) = mock_test_of j) \<and>
                  mock_tests (fst (handle ev rq w))
                    = mock_tests w @ [last (mock_tests (fst (handle ev rq w)))] \<and>
                  quizzes (fst (handle ev rq w)) = quizzes w)))"
proof (cases rq)
  case (CreateContent r)
  with assms create_content_shape[of ev w r db1 res] show ?thesis by auto
next
  case (UploadPdf r)
  with assms upload_pdf_shape[of ev w r db1 res] show ?thesis by auto
next
  case (MockTestGenerate r)
  with assms mock_test_generate_shape[of ev w r db1 res] show ?thesis by auto
qed

lemma checkUserUsage_keeps_counter:
  "db u = Some r \<Longrightarrow>
   \<exists>r'. fst (checkUserUsage rd wr now db uid) u = Some r' \<and>
        free_generations_remaining r' = free_generations_remaining r"
  by (auto simp: checkUserUsage_def getDoc_def setDoc_def updateDoc_def revert_to_free_def
           split: outcome.splits option.splits)

lemma checkUserUsage_creates_ten:
  "db u = None \<Longrightarrow>
   fst (checkUserUsage rd wr now db uid) u = None \<or>
   fst (checkUserUsage rd wr now db uid) u = Some (new_profile u now)"
  by (auto simp: checkUserUsage_def getDoc_def setDoc_def updateDoc_def
           split: outcome.splits option.splits)

lemma checkUserUsage_subscriber:
  assumes "db uid = Some r" and "subscription_status r \<noteq> Free"
    and "subscription_expiry r = Some e" and "now < e"
  shows "checkUserUsage rd wr now db uid = (db, Inl StoreError) \<or>
         checkUserUsage rd wr now db uid =
           (db, Inr \<lparr>canGenerate = True, remainingFree = 0,
                     subscriptionStatus = subscription_status r\<rparr>)"
  using assms by (cases rd) (auto simp: checkUserUsage_def getDoc_def still_valid_def)

lemma handle_other_user:
  assumes "requester rq \<noteq> uid"
  shows "users (fst (handle ev rq w)) uid = users w uid"
proof -
  obtain db1 res where c:
    "checkUserUsage (usage_read ev) (usage_write ev) (clock ev) (users w) (requester rq)
       = (db1, res)"
    by (cases "checkUserUsage (usage_read ev) (usage_write ev) (clock ev) (users w) (requester rq)")
  have d: "db1 uid = users w uid"
    using checkUserUsage_other[OF assms, of "usage_read ev" "usage_write ev" "clock ev" "users w"] c
    by simp
  have e: "fst (consume_if_free ev usage db1 (requester rq)) uid = db1 uid" for usage
    using decrementFreeUsage_other[OF assms] by (simp add: consume_if_free_def)
  from handle_shape[OF c] d e show ?thesis by auto
qed

lemma handle_keeps_subscriber:
  assumes "users w uid = Some r" and "subscription_status r \<noteq> Free"
    and "subscription_expiry r = Some e" and "clock ev < e"
  shows "users (fst (handle ev rq w)) uid = Some r"
proof (cases "requester rq = uid")
  case False
  with handle_other_user[of rq uid ev w] assms(1) show ?thesis by simp
next
  case True
  obtain db1 res where c:
    "checkUserUsage (usage_read ev) (usage_write ev) (clock ev) (users w) (requester rq)
       = (db1, res)"
    by (cases "checkUserUsage (usage_read ev) (usage_write ev) (clock ev) (users w) (requester rq)")
  from checkUserUsage_subscriber
         [of "users w" uid r e "clock ev" "usage_read ev" "usage_write ev"] assms c True
  have d: "db1 = users w"
    and f: "\<And>usage. res = Inr usage \<Longrightarrow> subscriptionStatus usage \<noteq> Free"
    by auto
  from f have "\<And>usage. res = Inr usage \<Longrightarrow>
                 fst (consume_if_free ev usage db1 (requester rq)) = db1"
    by (simp add: consume_if_free_def)
  with handle_shape[OF c] d assms(1) show ?thesis by auto
qed

lemma serve_keeps_subscriber:
  "users w uid = Some r \<Longrightarrow> subscription_status r \<noteq> Free \<Longrightarrow>
   subscription_expiry r = Some e \<Longrightarrow> list_all (\<lambda>(ev, rq). clock ev < e) rs \<Longrightarrow>
   users (serve rs w) uid = Some r"
proof (induction rs arbitrary: w)
  case Nil
  then show ?case by simp
next
  case (Cons a rs)
  obtain ev rq where a: "a = (ev, rq)" by (cases a)
  with Cons.prems have "users (fst (handle ev rq w)) uid = Some r"
    by (auto intro: handle_keeps_subscriber)
  with Cons a show ?case by simp
qed

lemma handle_failure_keeps_counters:
  assumes "http_status (snd (handle ev rq w)) \<noteq> 201"
  shows "quizzes (fst (handle ev rq w)) = quizzes w
     \<and> mock_tests (fst (handle ev rq w)) = mock_tests w
     \<and> (\<forall>u r. users w u = Some r \<longrightarrow>
           (\<exists>r'. users (fst (handle ev rq w)) u = Some r' \<and>
                 free_generations_remaining r' = free_generations_remaining r))
     \<and> (\<forall>u. users w u = None \<longrightarrow>
           users (fst (handle ev rq w)) u = None \<or>
           users (fst (handle ev rq w)) u = Some (new_profile u (clock ev)))"
proof -
  obtain db1 res where c:
    "checkUserUsage (usage_read ev) (usage_write ev) (clock ev) (users w) (requester rq)
       = (db1, res)"
    by (cases "checkUserUsage (usage_read ev) (usage_write ev) (clock ev) (users w) (requester rq)")
  from handle_shape[OF c] assms
  have s: "fst (handle ev rq w) = w \<or> fst (handle ev rq w) = w\<lparr>users := db1\<rparr>" by auto
  have k1: "\<forall>u r. users w u = Some r \<longrightarrow>
           (\<exists>r'. db1 u = Some r' \<and> free_generations_remaining r' = free_generations_remaining r)"
    using checkUserUsage_keeps_counter
            [of "users w" _ _ "usage_read ev" "usage_write ev" "clock ev" "requester rq"] c
    by auto
  have k2: "\<forall>u. users w u = None \<longrightarrow> db1 u = None \<or> db1 u = Some (new_profile u (clock ev))"
    using checkUserUsage_creates_ten
            [of "users w" _ "usage_read ev" "usage_write ev" "clock ev" "requester rq"] c
    by auto
  from s show ?thesis
  proof
    assume "fst (handle ev rq w) = w"
    then show ?thesis by simp
  next
    assume "fst (handle ev rq w) = w\<lparr>users := db1\<rparr>"
    with k1 k2 show ?thesis by simp
  qed
qed

lemma handle_created_is_saved:
  assumes "http_status (snd (handle ev rq w)) = 201"
  shows "add_doc ev = Succeeds \<and>
     (((\<forall>r. rq \<noteq> MockTestGenerate r) \<and>
       sanitize (generateContent (generator ev) (include_flag rq))
         = Inr (quiz_questions (last (quizzes (fst (handle ev rq w)))),
                quiz_flashcards (last (quizzes (fst (handle ev rq w))))) \<and>
       quizzes (fst (handle ev rq w)) = quizzes w @ [last (quizzes (fst (handle ev rq w)))] \<and>
       mock_tests (fst (handle ev rq w)) = mock_tests w)
      \<or> ((\<exists>r. rq = MockTestGenerate r) \<and>
          (\<exists>j. generateMockTest (generator ev) = Inr j \<and>
               createMockTestPDF (pdf_write ev) j = Inr () \<and>
               test_data (last (mock_tests (fst (handle ev rq w)))) = mock_test_of j) \<and>
          mock_tests (fst (handle ev rq w))
            = mock_tests w @ [last (mock_tests (fst (handle ev rq w)))] \<and>
          quizzes (fst (handle ev rq w)) = quizzes w))"
proof -
  obtain db1 res where c:
    "checkUserUsage (usage_read ev) (usage_write ev) (clock ev) (users w) (requester rq)
       = (db1, res)"
    by (cases "checkUserUsage (usage_read ev) (usage_write ev) (clock ev) (users w) (requester rq)")
  from handle_shape[OF c] assms show ?thesis by auto
qed

lemma sanitize_fallback:
  "sanitize (fallback_content inc) =
     Inr ([\<lparr>q_question = ''Error occurred. Is this a test?'', q_type = ''true_false'',
            q_options = [''True'', ''False''], q_answer = ''True''\<rparr>],
          if inc then [\<lparr>f_term = ''Error'', f_definition = ''Try again later''\<rparr>] else [])"
  by (simp add: sanitize_def fallback_content_def map_json_def sanitize_question_def
        sanitize_flashcard_def property_def truthy_def String_of_def toLowerCase_def
        or_empty_def)

text \<open>
  C3. For a record whose status is not free and whose expiry \<open>e\<close> is set: at a clock before
  \<open>e\<close>, \<open>checkUserUsage\<close> returns allowed, 0 remaining and the stored status; and after any
  run of generation requests (by this user or others, on any route, whatever the store and
  the generator do), each served at a clock before \<open>e\<close>, the record is the one stored
  before, so its counter has not moved.
\<close>

theorem subscriber_bypasses_free_counter:
  assumes "users w uid = Some r" and "subscription_status r \<noteq> Free"
    and "subscription_expiry r = Some e"
  shows "(now < e \<longrightarrow>
            checkUserUsage Succeeds wr now (users w) uid =
              (users w, Inr \<lparr>canGenerate = True, remainingFree = 0,
                             subscriptionStatus = subscription_status r\<rparr>))
       \<and> (list_all (\<lambda>(ev, rq). clock ev < e) rs \<longrightarrow> users (serve rs w) uid = Some r)"
  using assms checkUserUsage_subscribed[of "users w" uid r e now wr]
    serve_keeps_subscriber[of w uid r e rs]
  by simp

theorem subscriber_bypasses_free_counter_witness:
  "checkUserUsage Succeeds Succeeds 50 (users (one_user (subscriber Monthly (Some 100) 4))) ''u1''
     = (users (one_user (subscriber Monthly (Some 100) 4)),
        Inr \<lparr>canGenerate = True, remainingFree = 0, subscriptionStatus = Monthly\<rparr>)
   \<and> users (serve [(upstream_down, CreateContent quiz_request),
                    (store_down, MockTestGenerate mock_request),
                    (upstream_down, CreateContent quiz_request)]
              (one_user (subscriber Monthly (Some 100) 4))) ''u1''
     = Some (subscriber Monthly (Some 100) 4)"
  using subscriber_bypasses_free_counter
          [of "one_user (subscriber Monthly (Some 100) 4)" "''u1''"
              "subscriber Monthly (Some 100) 4" 100 50 Succeeds
              "[(upstream_down, CreateContent quiz_request),
                (store_down, MockTestGenerate mock_request),
                (upstream_down, CreateContent quiz_request)]"]
  by (simp add: one_user_def subscriber_def upstream_down_def store_down_def)

lemma property_error: "property v k = Inl e \<Longrightarrow> e = TypeError"
  by (auto simp: property_def split: json.splits)

lemma map_throwing_error:
  "map_throwing f xs = Inl e \<Longrightarrow> \<exists>x \<in> set xs. f x = Inl e"
  by (induction xs) (auto split: sum.splits)

lemma sanitize_question_error:
  "sanitize_question q = Inl e \<Longrightarrow> e = TypeError \<or> e = InvalidQuestionStructure"
  by (auto simp: sanitize_question_def split: sum.splits if_splits option.splits json.splits
           dest: property_error)

lemma sanitize_flashcard_error:
  "sanitize_flashcard f = Inl e \<Longrightarrow> e = TypeError \<or> e = InvalidFlashcardStructure"
  by (auto simp: sanitize_flashcard_def split: sum.splits if_splits dest: property_error)

lemma map_json_error:
  "map_json f v = Inl e \<Longrightarrow> e = TypeError \<or> (\<exists>x. f x = Inl e)"
  by (auto simp: map_json_def split: json.splits dest: map_throwing_error)

lemma sanitize_error:
  "sanitize c = Inl e \<Longrightarrow>
   e = TypeError \<or> e = InvalidQuestionStructure \<or> e = InvalidFlashcardStructure"
  by (auto simp: sanitize_def split: sum.splits
           dest!: map_json_error dest: sanitize_question_error sanitize_flashcard_error)

lemma checkUserUsage_error:
  "checkUserUsage rd wr now db uid = (db1, Inl e) \<Longrightarrow> e = StoreError \<or> e = NotFound"
  by (auto simp: checkUserUsage_def getDoc_def setDoc_def updateDoc_def
           split: outcome.splits option.splits if_splits)

lemma addDoc_error: "addDoc oc coll d = Inl e \<Longrightarrow> e = StoreError"
  by (auto simp: addDoc_def split: outcome.splits)

lemma create_content_error:
  "snd (create_content ev rq w) = ServerError m e \<Longrightarrow>
   e \<noteq> GeneratorError \<and> e \<noteq> SyntaxError"
  by (auto simp: create_content_def
           split: if_splits prod.splits sum.splits
           dest: checkUserUsage_error sanitize_error addDoc_error)

lemma upload_pdf_error:
  "snd (upload_pdf ev rq w) = ServerError m e \<Longrightarrow>
   e \<noteq> GeneratorError \<and> e \<noteq> SyntaxError"
  by (auto simp: upload_pdf_def Let_def
           split: if_splits prod.splits sum.splits option.splits
           dest: checkUserUsage_error sanitize_error addDoc_error)

lemma generateContent_failure:
  "g = Rejected \<or> g = Unparseable \<Longrightarrow> generateContent g inc = fallback_content inc"
  by (auto simp: generateContent_def)

lemma mock_test_generate_failure:
  assumes "generateMockTest (generator ev) = Inl e"
    and "mr_topic r \<noteq> []" and "mr_description r \<noteq> []" and "mr_difficulty r \<noteq> []"
    and "mr_num_questions r \<noteq> 0" and "mr_user_id r \<noteq> []"
    and "checkUserUsage (usage_read ev) (usage_write ev) (clock ev) (users w) (mr_user_id r)
           = (db1, Inr usage)"
    and "canGenerate usage"
  shows "mock_test_generate ev r w =
           (w\<lparr>users := db1\<rparr>, ServerError ''Error generating mock test'' e)"
  using assms by (simp add: mock_test_generate_def)

text \<open>
  C7, as the code has it. When the generator is rejected upstream or answers text that does
  not parse, \<open>generateContent\<close> returns the placeholder (one fallback question and, when
  flashcards are asked for, one fallback flashcard), which passes validation, and neither
  quiz route ever answers with the generator's error; a quiz saved then holds the
  placeholder. \<open>generateMockTest\<close> instead rethrows: the mock-test route, once the request
  and the usage check have passed, answers 500 with that error and touches nothing but what
  the usage check did.
\<close>

theorem generator_failure_recovered_except_mock_test:
  assumes "g = Rejected \<or> g = Unparseable"
  shows "generateContent g inc =
           \<lparr>questions =
              JArr [JObj [(''question'', JStr ''Error occurred. Is this a test?''),
                          (''type'', JStr ''true_false''), (''answer'', JStr ''True'')]],
            flashcards =
              (if inc
               then JArr [JObj [(''term'', JStr ''Error''),
                                (''definition'', JStr ''Try again later'')]]
               else JArr [])\<rparr>
       \<and> sanitize (generateContent g inc) =
           Inr ([\<lparr>q_question = ''Error occurred. Is this a test?'', q_type = ''true_false'',
                  q_options = [''True'', ''False''], q_answer = ''True''\<rparr>],
                if inc then [\<lparr>f_term = ''Error'', f_definition = ''Try again later''\<rparr>] else [])
       \<and> (generator ev = g \<and> (\<forall>r. rq \<noteq> MockTestGenerate r) \<longrightarrow>
            (\<forall>m e. snd (handle ev rq w) = ServerError m e \<longrightarrow>
                   e \<noteq> GeneratorError \<and> e \<noteq> SyntaxError) \<and>
            (http_status (snd (handle ev rq w)) = 201 \<longrightarrow>
               quiz_questions (last (quizzes (fst (handle ev rq w)))) =
                 [\<lparr>q_question = ''Error occurred. Is this a test?'', q_type = ''true_false'',
                   q_options = [''True'', ''False''], q_answer = ''True''\<rparr>]))
       \<and> generateMockTest g = Inl (if g = Rejected then GeneratorError else SyntaxError)
       \<and> (generator ev = g \<and> mr_topic r \<noteq> [] \<and> mr_description r \<noteq> [] \<and>
          mr_difficulty r \<noteq> [] \<and> mr_num_questions r \<noteq> 0 \<and> mr_user_id r \<noteq> [] \<and>
          checkUserUsage (usage_read ev) (usage_write ev) (clock ev) (users w) (mr_user_id r)
            = (db1, Inr usage) \<and> canGenerate usage \<longrightarrow>
          mock_test_generate ev r w =
            (w\<lparr>users := db1\<rparr>,
             ServerError ''Error generating mock test''
               (if g = Rejected then GeneratorError else SyntaxError)))"
proof -
  have gc: "generateContent g inc = fallback_content inc" for inc
    using assms by (rule generateContent_failure)
  have gm: "generateMockTest g = Inl (if g = Rejected then GeneratorError else SyntaxError)"
    using assms by (auto simp: generateMockTest_def)
  have quiz: "generator ev = g \<and> (\<forall>r. rq \<noteq> MockTestGenerate r) \<longrightarrow>
            (\<forall>m e. snd (handle ev rq w) = ServerError m e \<longrightarrow>
                   e \<noteq> GeneratorError \<and> e \<noteq> SyntaxError) \<and>
            (http_status (snd (handle ev rq w)) = 201 \<longrightarrow>
               quiz_questions (last (quizzes (fst (handle ev rq w)))) =
                 [\<lparr>q_question = ''Error occurred. Is this a test?'', q_type = ''true_false'',
                   q_options = [''True'', ''False''], q_answer = ''True''\<rparr>])"
  proof (intro conjI allI impI; elim conjE)
    fix m e
    assume h: "generator ev = g" "\<forall>r. rq \<noteq> MockTestGenerate r"
    assume "snd (handle ev rq w) = ServerError m e"
    with h(2) create_content_error[of ev _ w m e] upload_pdf_error[of ev _ w m e]
    show "e \<noteq> GeneratorError" "e \<noteq> SyntaxError" by (cases rq; simp)+
  next
    assume h: "generator ev = g" "\<forall>r. rq \<noteq> MockTestGenerate r"
    assume "http_status (snd (handle ev rq w)) = 201"
    from handle_created_is_saved[OF this] h gc[of "include_flag rq"]
    show "quiz_questions (last (quizzes (fst (handle ev rq w)))) =
                 [\<lparr>q_question = ''Error occurred. Is this a test?'', q_type = ''true_false'',
                   q_options = [''True'', ''False''], q_answer = ''True''\<rparr>]"
      by (auto simp: sanitize_fallback)
  qed
  have mock: "generator ev = g \<and> mr_topic r \<noteq> [] \<and> mr_description r \<noteq> [] \<and>
          mr_difficulty r \<noteq> [] \<and> mr_num_questions r \<noteq> 0 \<and> mr_user_id r \<noteq> [] \<and>
          checkUserUsage (usage_read ev) (usage_write ev) (clock ev) (users w) (mr_user_id r)
            = (db1, Inr usage) \<and> canGenerate usage \<longrightarrow>
          mock_test_generate ev r w =
            (w\<lparr>users := db1\<rparr>,
             ServerError ''Error generating mock test''
               (if g = Rejected then GeneratorError else SyntaxError))"
    using gm by (auto intro!: mock_test_generate_failure[where usage = usage])
  have f: "generateContent g inc =
           \<lparr>questions =
              JArr [JObj [(''question'', JStr ''Error occurred. Is this a test?''),
                          (''type'', JStr ''true_false''), (''answer'', JStr ''True'')]],
            flashcards =
              (if inc
               then JArr [JObj [(''term'', JStr ''Error''),
                                (''definition'', JStr ''Try again later'')]]
               else JArr [])\<rparr>"
    using gc[of inc] by (simp add: fallback_content_def)
  have s: "sanitize (generateContent g inc) =
           Inr ([\<lparr>q_question = ''Error occurred. Is this a test?'', q_type = ''true_false'',
                  q_options = [''True'', ''False''], q_answer = ''True''\<rparr>],
                if inc then [\<lparr>f_term = ''Error'', f_definition = ''Try again later''\<rparr>] else [])"
    using gc[of inc] by (simp add: sanitize_fallback)
  show ?thesis
    by (intro conjI) (fact f, fact s, fact quiz, fact gm, fact mock)
qed

theorem generator_failure_recovered_except_mock_test_witness:
  "generateContent Rejected True =
     \<lparr>questions =
        JArr [JObj [(''question'', JStr ''Error occurred. Is this a test?''),
                    (''type'', JStr ''true_false''), (''answer'', JStr ''True'')]],
      flashcards =
        JArr [JObj [(''term'', JStr ''Error''), (''definition'', JStr ''Try again later'')]]\<rparr>
   \<and> generateMockTest Rejected = Inl GeneratorError
   \<and> mock_test_generate upstream_down mock_request (one_user (free_user 10)) =
       (one_user (free_user 10), ServerError ''Error generating mock test'' GeneratorError)"
  using generator_failure_recovered_except_mock_test
          [of Rejected True upstream_down "CreateContent quiz_request"
              "one_user (free_user 10)" mock_request "[''u1'' \<mapsto> free_user 10]"
              "\<lparr>canGenerate = True, remainingFree = 10, subscriptionStatus = Free\<rparr>"]
  by (simp add: upstream_down_def mock_request_def one_user_def free_user_def
        checkUserUsage_def getDoc_def free_tier_def)

text \<open>
  C7 as stated fails at the mock-test route: with the generator rejected upstream,
  \<open>generateMockTest\<close> returns the error, and the route answers 500 instead of a placeholder
  test.
\<close>

theorem mock_test_generator_failure_propagates:
  "generateMockTest Rejected = Inl GeneratorError
   \<and> generateMockTest Unparseable = Inl SyntaxError
   \<and> generator upstream_down = Rejected
   \<and> mock_test_generate upstream_down mock_request (one_user (free_user 10)) =
       (one_user (free_user 10), ServerError ''Error generating mock test'' GeneratorError)"
  by (simp add: generateMockTest_def mock_test_generate_def upstream_down_def mock_request_def
        one_user_def free_user_def checkUserUsage_def getDoc_def free_tier_def)


text \<open>
  C8, as the code has it. A generation request that is not answered 201 leaves both
  artifact collections as they were and no counter changed: a record that existed keeps its
  counter, and a record that did not exist is still absent or is the new profile with 10.
  A request answered 201 has had its \<open>addDoc\<close> succeed with the validated content (for a
  mock test: the parsed test, its PDF written) appended as the last document. A request
  whose \<open>addDoc\<close> rejects, whose content fails validation, or, on the mock-test route,
  whose generation fails, is not answered 201. Nothing is said here of a generator failure
  on the two quiz routes, which \<open>generateContent\<close> turns into the placeholder.
\<close>

theorem quota_spent_only_after_artifact_saved:
  "(http_status (snd (handle ev rq w)) \<noteq> 201 \<longrightarrow>
      quizzes (fst (handle ev rq w)) = quizzes w
      \<and> mock_tests (fst (handle ev rq w)) = mock_tests w
      \<and> (\<forall>u r. users w u = Some r \<longrightarrow>
            (\<exists>r'. users (fst (handle ev rq w)) u = Some r' \<and>
                  free_generations_remaining r' = free_generations_remaining r))
      \<and> (\<forall>u. users w u = None \<longrightarrow>
            users (fst (handle ev rq w)) u = None \<or>
            users (fst (handle ev rq w)) u = Some (new_profile u (clock ev))))
   \<and> (http_status (snd (handle ev rq w)) = 201 \<longrightarrow>
      add_doc ev = Succeeds \<and>
      (((\<forall>r. rq \<noteq> MockTestGenerate r) \<and>
        sanitize (generateContent (generator ev) (include_flag rq))
          = Inr (quiz_questions (last (quizzes (fst (handle ev rq w)))),
                 quiz_flashcards (last (quizzes (fst (handle ev rq w))))) \<and>
        quizzes (fst (handle ev rq w)) = quizzes w @ [last (quizzes (fst (handle ev rq w)))] \<and>
        mock_tests (fst (handle ev rq w)) = mock_tests w)
       \<or> ((\<exists>r. rq = MockTestGenerate r) \<and>
           (\<exists>j. generateMockTest (generator ev) = Inr j \<and>
                createMockTestPDF (pdf_write ev) j = Inr () \<and>
                test_data (last (mock_tests (fst (handle ev rq w)))) = mock_test_of j) \<and>
           mock_tests (fst (handle ev rq w))
             = mock_tests w @ [last (mock_tests (fst (handle ev rq w)))] \<and>
           quizzes (fst (handle ev rq w)) = quizzes w)))
   \<and> (add_doc ev = Throws
       \<or> ((\<forall>r. rq \<noteq> MockTestGenerate r) \<and>
           (\<exists>e. sanitize (generateContent (generator ev) (include_flag rq)) = Inl e))
       \<or> ((\<exists>r. rq = MockTestGenerate r) \<and> (\<exists>e. generateMockTest (generator ev) = Inl e))
      \<longrightarrow> http_status (snd (handle ev rq w)) \<noteq> 201)"
proof (intro conjI)
  show "http_status (snd (handle ev rq w)) \<noteq> 201 \<longrightarrow>
      quizzes (fst (handle ev rq w)) = quizzes w
      \<and> mock_tests (fst (handle ev rq w)) = mock_tests w
      \<and> (\<forall>u r. users w u = Some r \<longrightarrow>
            (\<exists>r'. users (fst (handle ev rq w)) u = Some r' \<and>
                  free_generations_remaining r' = free_generations_remaining r))
      \<and> (\<forall>u. users w u = None \<longrightarrow>
            users (fst (handle ev rq w)) u = None \<or>
            users (fst (handle ev rq w)) u = Some (new_profile u (clock ev)))"
    using handle_failure_keeps_counters[of ev rq w] by blast
  show "http_status (snd (handle ev rq w)) = 201 \<longrightarrow>
      add_doc ev = Succeeds \<and>
      (((\<forall>r. rq \<noteq> MockTestGenerate r) \<and>
        sanitize (generateContent (generator ev) (include_flag rq))
          = Inr (quiz_questions (last (quizzes (fst (handle ev rq w)))),
                 quiz_flashcards (last (quizzes (fst (handle ev rq w))))) \<and>
        quizzes (fst (handle ev rq w)) = quizzes w @ [last (quizzes (fst (handle ev rq w)))] \<and>
        mock_tests (fst (handle ev rq w)) = mock_tests w)
       \<or> ((\<exists>r. rq = MockTestGenerate r) \<and>
           (\<exists>j. generateMockTest (generator ev) = Inr j \<and>
                createMockTestPDF (pdf_write ev) j = Inr () \<and>
                test_data (last (mock_tests (fst (handle ev rq w)))) = mock_test_of j) \<and>
           mock_tests (fst (handle ev rq w))
             = mock_tests w @ [last (mock_tests (fst (handle ev rq w)))] \<and>
           quizzes (fst (handle ev rq w)) = quizzes w))"
    using handle_created_is_saved[of ev rq w] by blast
  show "add_doc ev = Throws
       \<or> ((\<forall>r. rq \<noteq> MockTestGenerate r) \<and>
           (\<exists>e. sanitize (generateContent (generator ev) (include_flag rq)) = Inl e))
       \<or> ((\<exists>r. rq = MockTestGenerate r) \<and> (\<exists>e. generateMockTest (generator ev) = Inl e))
      \<longrightarrow> http_status (snd (handle ev rq w)) \<noteq> 201"
  proof (intro impI notI)
    assume a: "add_doc ev = Throws
       \<or> ((\<forall>r. rq \<noteq> MockTestGenerate r) \<and>
           (\<exists>e. sanitize (generateContent (generator ev) (include_flag rq)) = Inl e))
       \<or> ((\<exists>r. rq = MockTestGenerate r) \<and> (\<exists>e. generateMockTest (generator ev) = Inl e))"
    assume "http_status (snd (handle ev rq w)) = 201"
    from handle_created_is_saved[OF this] a show False by auto
  qed
qed

theorem quota_spent_only_after_artifact_saved_witness:
  "quizzes (fst (handle store_down (CreateContent quiz_request) (one_user (free_user 10)))) = []
   \<and> (\<exists>r'. users (fst (handle store_down (CreateContent quiz_request)
                          (one_user (free_user 10)))) ''u1'' = Some r' \<and>
           free_generations_remaining r' = 10)
   \<and> http_status (snd (handle store_down (CreateContent quiz_request)
                          (one_user (free_user 10)))) \<noteq> 201"
proof -
  note t = quota_spent_only_after_artifact_saved
             [of store_down "CreateContent quiz_request" "one_user (free_user 10)"]
  have a: "add_doc store_down = Throws"
    by (simp add: store_down_def)
  have b: "users (one_user (free_user 10)) ''u1'' = Some (free_user 10)"
    by (simp add: one_user_def)
  from t a
  have n: "http_status (snd (handle store_down (CreateContent quiz_request)
                               (one_user (free_user 10)))) \<noteq> 201"
    by blast
  with t b
  have "quizzes (fst (handle store_down (CreateContent quiz_request) (one_user (free_user 10))))
          = quizzes (one_user (free_user 10))
      \<and> (\<exists>r'. users (fst (handle store_down (CreateContent quiz_request)
                             (one_user (free_user 10)))) ''u1'' = Some r' \<and>
              free_generations_remaining r' = free_generations_remaining (free_user 10))"
    by blast
  with n show ?thesis
    by (simp add: one_user_def free_user_def)
qed

text \<open>
  C8 as stated fails when the generator itself fails on a quiz route: the failure is
  replaced by the placeholder, the placeholder quiz is saved, the request is answered 201
  and the free counter goes from 10 to 9.
\<close>

theorem masked_generator_failure_spends_quota:
  "generator upstream_down = Rejected
   \<and> users (one_user (free_user 10)) ''u1'' = Some (free_user 10)
   \<and> http_status (snd (handle upstream_down (CreateContent quiz_request)
                          (one_user (free_user 10)))) = 201
   \<and> users (fst (handle upstream_down (CreateContent quiz_request)
                    (one_user (free_user 10)))) ''u1'' = Some (free_user 9)"
  by (simp add: create_content_def upstream_down_def quiz_request_def one_user_def
        free_user_def checkUserUsage_def getDoc_def free_tier_def generateContent_def
        sanitize_fallback addDoc_def consume_if_free_def decrementFreeUsage_def updateDoc_def)

section \<open>Properties of the calendar\<close>

lemma div_eqI:
  fixes x k v :: int
  assumes "0 < k" and "k * v \<le> x" and "x < k * v + k"
  shows "x div k = v"
proof -
  have "x = k * v + (x - k * v)" by simp
  moreover have "0 \<le> x - k * v" "x - k * v < k" using assms by simp_all
  ultimately show ?thesis
    using assms(1) by (metis div_pos_pos_trivial add.commute div_mult_self2 add_cancel_right_right less_irrefl)
qed

lemma month_part:
  fixes mp dd :: int
  assumes "0 \<le> mp" "mp < 12" "0 \<le> dd"
    and "dd < (if mp = 11 then 29 else if mp \<in> {1, 3, 6, 8} then 30 else 31)"
  shows "(5 * ((153 * mp + 2) div 5 + dd) + 2) div 153 = mp"
proof -
  from assms(1,2) have "mp = 0 \<or> mp = 1 \<or> mp = 2 \<or> mp = 3 \<or> mp = 4 \<or> mp = 5 \<or> mp = 6 \<or> mp = 7
     \<or> mp = 8 \<or> mp = 9 \<or> mp = 10 \<or> mp = 11" by arith
  then show ?thesis
    using assms(3,4) by (elim disjE) simp_all
qed

lemma year_part:
  fixes yoe doy doe :: int
  assumes y: "0 \<le> yoe" "yoe < 400" and d0: "0 \<le> doy"
    and d1: "doy \<le> 364 \<or> (doy = 365 \<and> leap_year (yoe + 1))"
    and doe: "doe = 365 * yoe + yoe div 4 - yoe div 100 + doy"
  shows "0 \<le> doe \<and> doe < 146097
       \<and> (doe - doe div 1460 + doe div 36524 - doe div 146096) div 365 = yoe"
proof -
  define c where "c = yoe div 100"
  define y2 where "y2 = yoe mod 100"
  define q where "q = y2 div 4"
  define r where "r = y2 mod 4"
  have e1: "yoe = 100 * c + y2" unfolding c_def y2_def by simp
  have b1: "0 \<le> y2" "y2 < 100" unfolding y2_def by simp_all
  have e2: "y2 = 4 * q + r" unfolding q_def r_def by simp
  have b2: "0 \<le> r" "r < 4" unfolding r_def by simp_all
  have bc: "0 \<le> c" "c \<le> 3" using e1 b1 y by arith+
  have bq: "0 \<le> q" "q \<le> 24" using e2 b1 b2 by arith+
  have yoe: "yoe = 100 * c + 4 * q + r" using e1 e2 by simp
  have d4: "yoe div 4 = 25 * c + q"
    by (rule div_eqI) (use yoe b2 in simp_all)
  have hc: "yoe div 100 = c" by (simp add: c_def)
  have doe': "doe = 36524 * c + 1461 * q + 365 * r + doy"
    using doe d4 hc yoe by linarith
  have lp: "r = 3 \<and> (q \<noteq> 24 \<or> c = 3)" if a: "doy = 365"
  proof -
    from a d1 have l: "leap_year (yoe + 1)" by simp
    have "yoe + 1 = 4 * (25 * c + q) + (r + 1)" using yoe by simp
    then have m4: "(yoe + 1) mod 4 = (r + 1) mod 4"
      by (metis mod_mult_self4)
    have "yoe + 1 = 100 * c + (4 * q + r + 1)" using yoe by simp
    then have m100: "(yoe + 1) mod 100 = (4 * q + r + 1) mod 100"
      by (metis mod_mult_self4)
    have m400: "(yoe + 1) mod 400 = 0 \<longleftrightarrow> yoe = 399"
      using y by (cases "yoe = 399") simp_all
    from l m4 have z: "(r + 1) mod 4 = 0" unfolding leap_year_def by simp
    from b2 have "r = 0 \<or> r = 1 \<or> r = 2 \<or> r = 3" by arith
    with z have r3: "r = 3" by (elim disjE) simp_all
    have "q = 24 \<Longrightarrow> c = 3"
    proof -
      assume "q = 24"
      with r3 m100 have "(yoe + 1) mod 100 = 0" by simp
      with l m400 have "yoe = 399" unfolding leap_year_def by simp
      with yoe r3 \<open>q = 24\<close> show "c = 3" by simp
    qed
    with r3 show ?thesis by blast
  qed
  define rest where "rest = 24 * c + q + 365 * r + doy"
  have doe'': "doe = 1460 * (25 * c + q) + rest"
    using doe' rest_def by simp
  have dbound: "doy \<le> 365" using d1 by auto
  have rest0: "0 \<le> rest" using rest_def bc bq b2 d0 by simp
  have rest1: "rest < 2920" using rest_def bc bq b2 dbound by simp
  consider (lo) "rest < 1460" | (hi) "1460 \<le> rest" by linarith
  then have key: "0 \<le> 25 * c + q + doy - doe div 1460 \<and> 25 * c + q + doy - doe div 1460 < 365"
  proof cases
    case lo
    have "doe div 1460 = 25 * c + q"
      by (rule div_eqI) (use doe'' rest0 lo in simp_all)
    moreover have "doy \<le> 364"
    proof (rule ccontr)
      assume "\<not> doy \<le> 364"
      with dbound have a: "doy = 365" by simp
      from lp[OF a] lo rest_def a bc bq show False by simp
    qed
    ultimately show ?thesis using d0 by simp
  next
    case hi
    have "doe div 1460 = 25 * c + q + 1"
      by (rule div_eqI) (use doe'' rest1 hi in simp_all)
    moreover have "1 \<le> doy" using hi rest_def bc bq b2 by simp
    ultimately show ?thesis using dbound by simp
  qed
  have top: "doe div 36524 - doe div 146096 = c"
  proof (cases "doy = 365 \<and> q = 24")
    case True
    with lp have "r = 3" "c = 3" by auto
    with True doe' have "doe = 146096" by simp
    then show ?thesis using \<open>c = 3\<close> by simp
  next
    case False
    have lt: "1461 * q + 365 * r + doy < 36524"
    proof (cases "doy = 365")
      case True
      with False have "q \<noteq> 24" by simp
      with bq have "q \<le> 23" by simp
      with b2 True show ?thesis by simp
    next
      case False
      with dbound have "doy \<le> 364" by simp
      with bq b2 show ?thesis by simp
    qed
    have "doe div 36524 = c"
      by (rule div_eqI) (use doe' lt bq b2 d0 in simp_all)
    moreover have "doe div 146096 = 0"
      by (rule div_eqI) (use doe' lt bc bq b2 d0 in simp_all)
    ultimately show ?thesis by simp
  qed
  have b0: "0 \<le> doe" using doe' bc bq b2 d0 by simp
  have b1': "doe < 146097"
  proof -
    have "1461 * q + 365 * r + doy \<le> 36524" using bq b2 dbound by simp
    with doe' bc show ?thesis by simp
  qed
  have "(doe - doe div 1460 + (doe div 36524 - doe div 146096)) div 365 = yoe"
    by (rule div_eqI) (use key doe' yoe top in simp_all)
  then have "(doe - doe div 1460 + doe div 36524 - doe div 146096) div 365 = yoe"
    by (simp add: algebra_simps)
  with b0 b1' show ?thesis by simp
qed

lemma leap_year_shift: "leap_year ((y - 1) mod 400 + 1) = leap_year y"
proof -
  have a: "((y - 1) mod 400 + 1) mod 400 = y mod 400"
    by (simp add: mod_simps)
  have m4: "x mod 4 = (x mod 400) mod 4" for x :: int
    by (simp add: mod_mod_cancel)
  have m100: "x mod 100 = (x mod 400) mod 100" for x :: int
    by (simp add: mod_mod_cancel)
  have "((y - 1) mod 400 + 1) mod 4 = y mod 4"
    using m4[of "(y - 1) mod 400 + 1"] m4[of y] a by simp
  moreover have "((y - 1) mod 400 + 1) mod 100 = y mod 100"
    using m100[of "(y - 1) mod 400 + 1"] m100[of y] a by simp
  ultimately show ?thesis using a by (simp add: leap_year_def)
qed

lemma civil_of_day_eq:
  fixes era doe yoe doy mp d :: int
  assumes doe: "0 \<le> doe" "doe < 146097"
    and yoe: "(doe - doe div 1460 + doe div 36524 - doe div 146096) div 365 = yoe"
    and doy: "doe - (365 * yoe + yoe div 4 - yoe div 100) = doy"
    and mp: "(5 * doy + 2) div 153 = mp"
  shows "civil_of_day (era * 146097 + doe - 719468) =
           (yoe + era * 400 + (if (mp + 2) mod 12 < 2 then 1 else 0), (mp + 2) mod 12,
            doy - (153 * mp + 2) div 5 + 1)"
proof -
  have a: "(era * 146097 + doe - 719468 + 719468) div 146097 = era"
    by (rule div_eqI) (use doe in simp_all)
  have "(era * 146097 + doe) mod 146097 = doe"
    using doe by (simp add: mod_pos_pos_trivial)
  then have b: "(era * 146097 + doe - 719468 + 719468) mod 146097 = doe" by simp
  show ?thesis
    unfolding civil_of_day_def Let_def a b yoe doy mp by simp
qed

lemma civil_of_day_start:
  assumes m: "0 \<le> m" "m < 12" and d: "1 \<le> d" "d \<le> days_in_month y m"
  shows "civil_of_day (day_of_month_start y m + d - 1) = (y, m, d)"
proof -
  define y' where "y' = (if m < 2 then y - 1 else y)"
  define era where "era = y' div 400"
  define yoe where "yoe = y' mod 400"
  define mp where "mp = (m + 10) mod 12"
  define doy where "doy = (153 * mp + 2) div 5 + (d - 1)"
  define doe where "doe = 365 * yoe + yoe div 4 - yoe div 100 + doy"
  have mp_eq: "mp = (if m < 2 then m + 10 else m - 2)"
  proof (cases "m < 2")
    case True
    with m show ?thesis unfolding mp_def by (simp add: mod_pos_pos_trivial)
  next
    case False
    have "m + 10 = m - 2 + 12" by simp
    then have "(m + 10) mod 12 = (m - 2 + 12) mod 12" by (simp only:)
    also have "\<dots> = (m - 2) mod 12" by (simp only: mod_add_self2)
    also have "\<dots> = m - 2" using False m by (simp add: mod_pos_pos_trivial)
    finally show ?thesis using False unfolding mp_def by simp
  qed
  have mpb: "0 \<le> mp" "mp < 12" using mp_eq m by (auto split: if_splits)
  have m_back: "(mp + 2) mod 12 = m"
  proof (cases "m < 2")
    case True
    then have "mp + 2 = m + 12" using mp_eq by simp
    then have "(mp + 2) mod 12 = m mod 12" by (simp only: mod_add_self2)
    with m show ?thesis by (simp add: mod_pos_pos_trivial)
  next
    case False
    then have "mp + 2 = m" using mp_eq by simp
    with m show ?thesis by (simp add: mod_pos_pos_trivial)
  qed
  have len: "d - 1 < (if mp = 11 then 29 else if mp \<in> {1, 3, 6, 8} then 30 else 31)"
    using d m mp_eq by (auto simp: days_in_month_def split: if_splits)
  have yb: "0 \<le> yoe" "yoe < 400" unfolding yoe_def by simp_all
  have start: "(153 * mp + 2) div 5 \<le> 306 \<or> mp = 11"
  proof -
    from mpb have "mp = 0 \<or> mp = 1 \<or> mp = 2 \<or> mp = 3 \<or> mp = 4 \<or> mp = 5 \<or> mp = 6 \<or> mp = 7
       \<or> mp = 8 \<or> mp = 9 \<or> mp = 10 \<or> mp = 11" by arith
    then show ?thesis by (elim disjE) simp_all
  qed
  have doy0: "0 \<le> doy"
  proof -
    have "0 \<le> (153 * mp + 2) div 5" using mpb by simp
    with d show ?thesis unfolding doy_def by simp
  qed
  have doy1: "doy \<le> 364 \<or> (doy = 365 \<and> leap_year (yoe + 1))"
  proof (cases "mp = 11")
    case False
    with start len show ?thesis unfolding doy_def by (auto split: if_splits)
  next
    case True
    then have m1: "m = 1" using mp_eq m by (auto split: if_splits)
    then have ly: "leap_year (yoe + 1) = leap_year y"
      unfolding yoe_def y'_def using leap_year_shift[of y] by simp
    have s: "doy = 337 + (d - 1)" unfolding doy_def using True by simp
    show ?thesis
    proof (cases "leap_year y")
      case True
      with d m1 have "d \<le> 29" by (simp add: days_in_month_def)
      with s ly True show ?thesis by auto
    next
      case False
      with d m1 have "d \<le> 28" by (simp add: days_in_month_def)
      with s show ?thesis by simp
    qed
  qed
  from year_part[OF yb doy0 doy1 doe_def]
  have doeb: "0 \<le> doe" "doe < 146097"
    and yr: "(doe - doe div 1460 + doe div 36524 - doe div 146096) div 365 = yoe"
    by simp_all
  have dy: "doe - (365 * yoe + yoe div 4 - yoe div 100) = doy"
    unfolding doe_def by simp
  have mo: "(5 * doy + 2) div 153 = mp"
    unfolding doy_def using month_part[OF mpb _ len] d by simp
  have z: "day_of_month_start y m + d - 1 = era * 146097 + doe - 719468"
    unfolding day_of_month_start_def Let_def doe_def doy_def mp_def yoe_def era_def y'_def
    by simp
  have yy: "yoe + era * 400 + (if m < 2 then 1 else 0) = y"
    unfolding yoe_def era_def y'_def by (simp add: mult.commute)
  have dd: "doy - (153 * mp + 2) div 5 + 1 = d" unfolding doy_def by simp
  show ?thesis
    unfolding z civil_of_day_eq[OF doeb yr dy mo] m_back yy dd by simp
qed

lemma MakeDay_in_range:
  "0 \<le> m \<Longrightarrow> m < 12 \<Longrightarrow> MakeDay y m d = day_of_month_start y m + d - 1"
  by (simp add: MakeDay_def div_pos_pos_trivial mod_pos_pos_trivial)

lemma Day_MakeDate:
  "0 \<le> tod \<Longrightarrow> tod < msPerDay \<Longrightarrow> Day (MakeDate day tod) = day"
  unfolding Day_def MakeDate_def
  by (rule div_eqI) (simp_all add: msPerDay_def)

lemma TimeWithinDay_MakeDate:
  "0 \<le> tod \<Longrightarrow> tod < msPerDay \<Longrightarrow> TimeWithinDay (MakeDate day tod) = tod"
  unfolding TimeWithinDay_def MakeDate_def
  by (simp add: msPerDay_def mod_pos_pos_trivial)

lemma local_fields:
  assumes "0 \<le> m" "m < 12" "1 \<le> d" "d \<le> days_in_month y m" "0 \<le> tod" "tod < msPerDay"
  shows "YearFromTime (MakeDate (MakeDay y m d) tod) = y"
    and "MonthFromTime (MakeDate (MakeDay y m d) tod) = m"
    and "DateFromTime (MakeDate (MakeDay y m d) tod) = d"
    and "TimeWithinDay (MakeDate (MakeDay y m d) tod) = tod"
  using assms civil_of_day_start[of m d y]
  by (simp_all add: YearFromTime_def MonthFromTime_def DateFromTime_def Day_MakeDate
        TimeWithinDay_MakeDate MakeDay_in_range)

lemma setMonth_fields:
  assumes "0 \<le> m" "m < 12" "1 \<le> d" "d \<le> days_in_month y m" "0 \<le> tod" "tod < msPerDay"
    and "LocalTime z now = MakeDate (MakeDay y m d) tod"
  shows "setMonth z now (getMonth z now + k) = UTC z (MakeDate (MakeDay y (m + k) d) tod)"
  using local_fields[OF assms(1-6)] assms(7)
  by (simp add: setMonth_def getMonth_def Let_def)

lemma setFullYear_fields:
  assumes "0 \<le> m" "m < 12" "1 \<le> d" "d \<le> days_in_month y m" "0 \<le> tod" "tod < msPerDay"
    and "LocalTime z now = MakeDate (MakeDay y m d) tod"
  shows "setFullYear z now (getFullYear z now + k) = UTC z (MakeDate (MakeDay (y + k) m d) tod)"
  using local_fields[OF assms(1-6)] assms(7)
  by (simp add: setFullYear_def getFullYear_def Let_def)

lemma day_of_month_start_alt:
  "day_of_month_start y m =
     march_year_start (if m < 2 then y - 1 else y) + (153 * ((m + 10) mod 12) + 2) div 5 - 719468"
  by (simp add: day_of_month_start_def march_year_start_def Let_def)

lemma div_step:
  fixes n k :: int
  assumes "0 < k"
  shows "(n + 1) div k - n div k = (if (n + 1) mod k = 0 then 1 else 0)"
proof -
  define q where "q = n div k"
  define r where "r = n mod k"
  have n: "n = k * q + r" unfolding q_def r_def by simp
  have rb: "0 \<le> r" "r < k" unfolding r_def using assms by simp_all
  show ?thesis
  proof (cases "r = k - 1")
    case True
    with n have e: "n + 1 = k * (q + 1)" by (simp add: algebra_simps)
    have "(n + 1) div k = q + 1" unfolding e using assms by simp
    moreover have "(n + 1) mod k = 0" unfolding e by simp
    ultimately show ?thesis unfolding q_def by simp
  next
    case False
    with rb have lt: "r + 1 < k" by simp
    have d: "(n + 1) div k = q"
      by (rule div_eqI) (use assms n rb lt in simp_all)
    have "(n + 1) mod k = (n + 1) - k * ((n + 1) div k)"
      by (simp add: minus_mult_div_eq_mod mult.commute)
    with d n have "(n + 1) mod k = r + 1" by simp
    with rb have "(n + 1) mod k \<noteq> 0" by simp
    with d show ?thesis unfolding q_def by simp
  qed
qed

lemma step4: "((n::int) + 1) div 4 - n div 4 = (if (n + 1) mod 4 = 0 then 1 else 0)"
  by (rule div_step) simp

lemma step100: "((n::int) + 1) div 100 - n div 100 = (if (n + 1) mod 100 = 0 then 1 else 0)"
  by (rule div_step) simp

lemma march_year_step:
  "march_year_start y = march_year_start (y - 1) + (if leap_year y then 366 else 365)"
proof -
  define yoe where "yoe = (y - 1) mod 400"
  define era where "era = (y - 1) div 400"
  have yb: "0 \<le> yoe" "yoe < 400" unfolding yoe_def by simp_all
  have y: "y = 400 * era + (yoe + 1)" unfolding yoe_def era_def by simp
  have ly: "leap_year y = leap_year (yoe + 1)"
    unfolding yoe_def by (simp add: leap_year_shift)
  show ?thesis
  proof (cases "yoe = 399")
    case True
    with y have y400: "y = 400 * (era + 1)" by simp
    then have "y div 400 = era + 1" "y mod 400 = 0" by simp_all
    moreover have "leap_year y" using y400 unfolding leap_year_def by simp
    ultimately show ?thesis
      unfolding march_year_start_def using True yoe_def era_def by simp
  next
    case False
    with yb have lt: "yoe + 1 < 400" by simp
    have d: "y div 400 = era"
      by (rule div_eqI) (use y yb lt in simp_all)
    have "y mod 400 = y - 400 * (y div 400)" by (simp add: minus_mult_div_eq_mod mult.commute)
    with d y have m: "y mod 400 = yoe + 1" by simp
    have n400: "(yoe + 1) mod 400 \<noteq> 0" using yb lt by (simp add: mod_pos_pos_trivial)
    have "(yoe + 1) mod 4 = ((yoe + 1) mod 100) mod 4"
      by (simp add: mod_mod_cancel)
    then have c: "(yoe + 1) mod 100 = 0 \<Longrightarrow> (yoe + 1) mod 4 = 0" by simp
    have "march_year_start y - march_year_start (y - 1)
            = 365 + ((yoe + 1) div 4 - yoe div 4) - ((yoe + 1) div 100 - yoe div 100)"
      unfolding march_year_start_def d m using yoe_def era_def by simp
    also have "\<dots> = (if leap_year (yoe + 1) then 366 else 365)"
      unfolding step4 step100 leap_year_def using n400 c by auto
    finally show ?thesis using ly by simp
  qed
qed

lemma month_length:
  assumes "0 \<le> m" "m < 12"
  shows "day_of_month_start (y + (m + 1) div 12) ((m + 1) mod 12)
           = day_of_month_start y m + days_in_month y m"
proof -
  from assms have "m = 0 \<or> m = 1 \<or> m = 2 \<or> m = 3 \<or> m = 4 \<or> m = 5 \<or> m = 6 \<or> m = 7
     \<or> m = 8 \<or> m = 9 \<or> m = 10 \<or> m = 11" by arith
  then show ?thesis
    using march_year_step[of y]
    by (elim disjE) (simp_all add: day_of_month_start_alt days_in_month_def)
qed

lemma days_in_month_pos: "1 \<le> days_in_month y m"
  by (simp add: days_in_month_def)

lemma every_day_is_a_date:
  "\<exists>y m d. 0 \<le> m \<and> m < 12 \<and> 1 \<le> d \<and> d \<le> days_in_month y m \<and>
           day_of_month_start y m + d - 1 = z"
proof (induction z rule: int_induct[where k = 0])
  case base
  have "day_of_month_start 1970 0 + 1 - 1 = 0"
    by (simp add: day_of_month_start_def)
  moreover have "(1::int) \<le> days_in_month 1970 0" by (rule days_in_month_pos)
  ultimately show ?case by (intro exI[of _ 1970] exI[of _ 0] exI[of _ 1]) simp
next
  case (step1 i)
  then obtain y m d where v: "0 \<le> m" "m < 12" "1 \<le> d" "d \<le> days_in_month y m"
    and e: "day_of_month_start y m + d - 1 = i" by blast
  show ?case
  proof (cases "d < days_in_month y m")
    case True
    with v e show ?thesis
      by (intro exI[of _ y] exI[of _ m] exI[of _ "d + 1"]) simp
  next
    case False
    with v have d: "d = days_in_month y m" by simp
    have "0 \<le> (m + 1) mod 12" "(m + 1) mod 12 < 12" by simp_all
    moreover have "day_of_month_start (y + (m + 1) div 12) ((m + 1) mod 12) + 1 - 1 = i + 1"
      using month_length[OF v(1,2), of y] d e by simp
    moreover have "(1::int) \<le> days_in_month (y + (m + 1) div 12) ((m + 1) mod 12)"
      by (rule days_in_month_pos)
    ultimately show ?thesis
      by (intro exI[of _ "y + (m + 1) div 12"] exI[of _ "(m + 1) mod 12"] exI[of _ 1]) simp
  qed
next
  case (step2 i)
  then obtain y m d where v: "0 \<le> m" "m < 12" "1 \<le> d" "d \<le> days_in_month y m"
    and e: "day_of_month_start y m + d - 1 = i" by blast
  show ?case
  proof (cases "1 < d")
    case True
    with v e show ?thesis
      by (intro exI[of _ y] exI[of _ m] exI[of _ "d - 1"]) simp
  next
    case False
    with v have d: "d = 1" by simp
    define yp where "yp = (if m = 0 then y - 1 else y)"
    define mp where "mp = (if m = 0 then 11 else m - 1)"
    have pb: "0 \<le> mp" "mp < 12" using v unfolding mp_def by auto
    have nx: "yp + (mp + 1) div 12 = y" "(mp + 1) mod 12 = m"
      using v unfolding yp_def mp_def by (auto simp: div_pos_pos_trivial mod_pos_pos_trivial)
    from month_length[OF pb, of yp] nx
    have "day_of_month_start yp mp + days_in_month yp mp - 1 = i - 1"
      using d e by simp
    moreover have "(1::int) \<le> days_in_month yp mp" by (rule days_in_month_pos)
    ultimately show ?thesis using pb
      by (intro exI[of _ yp] exI[of _ mp] exI[of _ "days_in_month yp mp"]) simp
  qed
qed

lemma civil_of_day_valid:
  "civil_of_day z = (y, m, d) \<Longrightarrow>
   0 \<le> m \<and> m < 12 \<and> 1 \<le> d \<and> d \<le> days_in_month y m \<and> day_of_month_start y m + d - 1 = z"
  using every_day_is_a_date[of z] civil_of_day_start by force

lemma time_is_local_date:
  "\<exists>y m d tod. 0 \<le> m \<and> m < 12 \<and> 1 \<le> d \<and> d \<le> days_in_month y m \<and> 0 \<le> tod \<and> tod < msPerDay \<and>
     t = MakeDate (MakeDay y m d) tod"
proof -
  obtain y m d where c: "civil_of_day (Day t) = (y, m, d)" by (cases "civil_of_day (Day t)")
  from civil_of_day_valid[OF c] have v: "0 \<le> m" "m < 12" "1 \<le> d" "d \<le> days_in_month y m"
    and e: "day_of_month_start y m + d - 1 = Day t" by simp_all
  have "t = MakeDate (MakeDay y m d) (TimeWithinDay t)"
    using e v by (simp add: MakeDate_def MakeDay_in_range Day_def TimeWithinDay_def)
  moreover have "0 \<le> TimeWithinDay t" "TimeWithinDay t < msPerDay"
    by (simp_all add: TimeWithinDay_def msPerDay_def)
  ultimately show ?thesis using v by blast
qed

section \<open>Properties of the subscription routes\<close>

lemma subscribe_valid:
  assumes "uid \<noteq> []" and "plan_expiry z now plan = Some (st, ex)"
  shows "subscribe Succeeds Succeeds z now made db uid plan =
     ((case db uid of
         None \<Rightarrow> db(uid \<mapsto> \<lparr>user_id = None, free_generations_remaining = 0,
                              subscription_status = st, subscription_expiry = Some ex,
                              created_at = made\<rparr>)
       | Some r \<Rightarrow> db(uid \<mapsto> r\<lparr>subscription_status := st, subscription_expiry := Some ex\<rparr>)),
      SubscribeOk uid plan ex)"
proof -
  from assms(2) have "plan \<noteq> []"
    by (auto simp: plan_expiry_def split: if_splits)
  with assms show ?thesis
    by (simp add: subscribe_def getDoc_def setDoc_def updateDoc_def split: option.splits)
qed

lemma plan_expiry_fields:
  assumes "0 \<le> m" "m < 12" "1 \<le> d" "d \<le> days_in_month y m" "0 \<le> tod" "tod < msPerDay"
    and "LocalTime z now = MakeDate (MakeDay y m d) tod"
  shows "plan_expiry z now ''monthly''
           = Some (Monthly, UTC z (MakeDate (MakeDay y (m + 1) d) tod))"
    and "plan_expiry z now ''quarterly''
           = Some (Quarterly, UTC z (MakeDate (MakeDay y (m + 3) d) tod))"
    and "plan_expiry z now ''yearly''
           = Some (Yearly, UTC z (MakeDate (MakeDay (y + 1) m d) tod))"
  using setMonth_fields[OF assms] setFullYear_fields[OF assms, of 1]
  by (simp_all add: plan_expiry_def)

lemma target_fields:
  assumes "0 \<le> tm" "tm < 12" "1 \<le> d" "d \<le> days_in_month ty tm" "0 \<le> tod" "tod < msPerDay"
  shows "YearFromTime (MakeDate (day_of_month_start ty tm + d - 1) tod) = ty
       \<and> MonthFromTime (MakeDate (day_of_month_start ty tm + d - 1) tod) = tm
       \<and> DateFromTime (MakeDate (day_of_month_start ty tm + d - 1) tod) = d
       \<and> TimeWithinDay (MakeDate (day_of_month_start ty tm + d - 1) tod) = tod"
  using local_fields[OF assms] assms(1,2) by (simp add: MakeDay_in_range)

lemma days_in_month_bounds: "28 \<le> days_in_month y m \<and> days_in_month y m \<le> 31"
  by (simp add: days_in_month_def)

lemma rollover_fields:
  assumes "0 \<le> tm" "tm < 12" "days_in_month ty tm < d" "d \<le> 31" "0 \<le> tod" "tod < msPerDay"
  shows "YearFromTime (MakeDate (day_of_month_start ty tm + d - 1) tod) = ty + (tm + 1) div 12
       \<and> MonthFromTime (MakeDate (day_of_month_start ty tm + d - 1) tod) = (tm + 1) mod 12
       \<and> DateFromTime (MakeDate (day_of_month_start ty tm + d - 1) tod)
           = d - days_in_month ty tm
       \<and> TimeWithinDay (MakeDate (day_of_month_start ty tm + d - 1) tod) = tod"
proof -
  define ny where "ny = ty + (tm + 1) div 12"
  define nm where "nm = (tm + 1) mod 12"
  define e where "e = d - days_in_month ty tm"
  have nb: "0 \<le> nm" "nm < 12" unfolding nm_def by simp_all
  have e1: "1 \<le> e" using assms(3) unfolding e_def by simp
  have "e \<le> 3" using assms(4) days_in_month_bounds[of ty tm] unfolding e_def by simp
  with days_in_month_bounds[of ny nm] have e2: "e \<le> days_in_month ny nm" by simp
  have eq: "day_of_month_start ty tm + d - 1 = day_of_month_start ny nm + e - 1"
    using month_length[OF assms(1,2), of ty] unfolding ny_def nm_def e_def by simp
  show ?thesis
    unfolding eq using target_fields[OF nb e1 e2 assms(5,6)]
    unfolding ny_def nm_def e_def .
qed

text \<open>
  C5, as the code has it. Let the host read the clock, in local time, as day \<open>d\<close> of month
  \<open>m\<close> (from 0) of year \<open>y\<close> at \<open>tod\<close> milliseconds into the day (every time value is
  read so, by \<open>time_is_local_date\<close>). For the plans monthly, quarterly and yearly the
  target month is the one 1 month, 3 months or 12 months later. Subscribing (the store
  answering) sets the status to the plan and the expiry to what the host's time zone makes
  of the local date \<open>d - 1\<close> days after the first of the target month, at the same time of
  day. When the target month has a day \<open>d\<close> that local date is day \<open>d\<close> of the target
  month; when it is shorter, the date is in the month after it, on the day numbered by the
  excess. On a host whose offset never changes the monthly expiry is the length of the
  current month after the clock, so not a fixed number of days. An absent record is
  created; an existing one keeps every other field, its free counter among them.
\<close>

theorem subscribe_sets_plan_and_calendar_expiry:
  assumes "uid \<noteq> []"
    and "0 \<le> m" and "m < 12" and "1 \<le> d" and "d \<le> days_in_month y m"
    and "0 \<le> tod" and "tod < msPerDay"
    and "LocalTime z now = MakeDate (MakeDay y m d) tod"
    and "(plan, st, ty, tm) \<in>
           {(''monthly'', Monthly, y + (m + 1) div 12, (m + 1) mod 12),
            (''quarterly'', Quarterly, y + (m + 3) div 12, (m + 3) mod 12),
            (''yearly'', Yearly, y + 1, m)}"
    and "local = MakeDate (day_of_month_start ty tm + d - 1) tod"
  shows "subscribe Succeeds Succeeds z now made db uid plan =
           ((case db uid of
               None \<Rightarrow> db(uid \<mapsto> \<lparr>user_id = None, free_generations_remaining = 0,
                                    subscription_status = st,
                                    subscription_expiry = Some (UTC z local),
                                    created_at = made\<rparr>)
             | Some r \<Rightarrow>
                 db(uid \<mapsto> r\<lparr>subscription_status := st,
                              subscription_expiry := Some (UTC z local)\<rparr>)),
            SubscribeOk uid plan (UTC z local))
       \<and> (d \<le> days_in_month ty tm \<longrightarrow>
            YearFromTime local = ty \<and> MonthFromTime local = tm \<and>
            DateFromTime local = d \<and> TimeWithinDay local = tod)
       \<and> (days_in_month ty tm < d \<longrightarrow>
            YearFromTime local = ty + (tm + 1) div 12 \<and>
            MonthFromTime local = (tm + 1) mod 12 \<and>
            DateFromTime local = d - days_in_month ty tm \<and> TimeWithinDay local = tod)
       \<and> ((\<forall>t. offset_at_utc z t = c) \<and> (\<forall>t. offset_at_local z t = c) \<and>
          plan = ''monthly'' \<longrightarrow>
            UTC z local = now + days_in_month y m * msPerDay)"
proof -
  note f = plan_expiry_fields[OF assms(2-8)]
  have tmb: "0 \<le> tm" "tm < 12" using assms(2,3,9) by auto
  have pe: "plan_expiry z now plan = Some (st, UTC z local)"
    using assms(9,10) f assms(2,3)
    by (auto simp: MakeDay_def div_pos_pos_trivial mod_pos_pos_trivial)
  have a: "subscribe Succeeds Succeeds z now made db uid plan =
           ((case db uid of
               None \<Rightarrow> db(uid \<mapsto> \<lparr>user_id = None, free_generations_remaining = 0,
                                    subscription_status = st,
                                    subscription_expiry = Some (UTC z local),
                                    created_at = made\<rparr>)
             | Some r \<Rightarrow>
                 db(uid \<mapsto> r\<lparr>subscription_status := st,
                              subscription_expiry := Some (UTC z local)\<rparr>)),
            SubscribeOk uid plan (UTC z local))"
    by (rule subscribe_valid[OF assms(1) pe])
  have b: "d \<le> days_in_month ty tm \<longrightarrow>
            YearFromTime local = ty \<and> MonthFromTime local = tm \<and>
            DateFromTime local = d \<and> TimeWithinDay local = tod"
    using target_fields[OF tmb assms(4) _ assms(6,7)] assms(10) by simp
  have d31: "d \<le> 31" using assms(5) days_in_month_bounds[of y m] by simp
  have r: "days_in_month ty tm < d \<longrightarrow>
            YearFromTime local = ty + (tm + 1) div 12 \<and>
            MonthFromTime local = (tm + 1) mod 12 \<and>
            DateFromTime local = d - days_in_month ty tm \<and> TimeWithinDay local = tod"
    using rollover_fields[OF tmb _ d31 assms(6,7)] assms(10) by simp
  have c: "(\<forall>t. offset_at_utc z t = c) \<and> (\<forall>t. offset_at_local z t = c) \<and>
          plan = ''monthly'' \<longrightarrow>
            UTC z local = now + days_in_month y m * msPerDay"
  proof
    assume h: "(\<forall>t. offset_at_utc z t = c) \<and> (\<forall>t. offset_at_local z t = c) \<and>
          plan = ''monthly''"
    with assms(9) have t: "ty = y + (m + 1) div 12" "tm = (m + 1) mod 12" by simp_all
    from h assms(8) have n: "now + c = MakeDate (MakeDay y m d) tod"
      by (simp add: LocalTime_def)
    from h have u: "UTC z local = local - c" by (simp add: UTC_def)
    from month_length[OF assms(2,3), of y] t assms(2,3,10) n u
    show "UTC z local = now + days_in_month y m * msPerDay"
      by (simp add: MakeDate_def MakeDay_in_range algebra_simps)
  qed
  from a b r c show ?thesis by blast
qed

theorem subscribe_sets_plan_and_calendar_expiry_witness:
  "subscribe Succeeds Succeeds eastern_2024 1708016400000 7 [''u1'' \<mapsto> free_user 6] ''u1''
       ''monthly'' =
     ([''u1'' \<mapsto> subscriber Monthly (Some 1710518400000) 6],
      SubscribeOk ''u1'' ''monthly'' 1710518400000)
   \<and> YearFromTime 1710504000000 = 2024 \<and> MonthFromTime 1710504000000 = 2
   \<and> DateFromTime 1710504000000 = 15 \<and> TimeWithinDay 1710504000000 = 43200000"
proof -
  have h1: "(15::int) \<le> days_in_month 2024 1" by code_simp
  have h2: "(43200000::int) < msPerDay" by code_simp
  have h3: "LocalTime eastern_2024 1708016400000 = MakeDate (MakeDay 2024 1 15) 43200000"
    by code_simp
  have h4: "(1710504000000::int) = MakeDate (day_of_month_start 2024 2 + 15 - 1) 43200000"
    by code_simp
  have h5: "(15::int) \<le> days_in_month 2024 2" by code_simp
  have h6: "UTC eastern_2024 1710504000000 = 1710518400000" by code_simp
  have h7: "(2024::int) + (1 + 1) div 12 = 2024 \<and> ((1::int) + 1) mod 12 = 2" by simp
  from subscribe_sets_plan_and_calendar_expiry
          [where uid = "''u1''" and m = 1 and d = 15 and y = 2024 and tod = 43200000
             and now = 1708016400000 and z = eastern_2024 and plan = "''monthly''"
             and st = Monthly and ty = 2024 and tm = 2 and local = 1710504000000
             and made = 7 and db = "[''u1'' \<mapsto> free_user 6]", OF _ _ _ _ h1 _ h2 h3 _ h4]
    h5 h6
  show ?thesis
    by (simp add: free_user_def subscriber_def)
qed

text \<open>
  C5 as stated fails on the last days of a month: on a host on UTC, subscribing monthly at
  noon on 31 January 2024 sets the expiry to noon on 2 March 2024, which is not one
  calendar month later (February has no 31st, and the date runs over into March).
\<close>

theorem month_end_expiry_overruns_target_month:
  "snd (subscribe Succeeds Succeeds utc_zone 1706702400000 7 Map.empty ''u1'' ''monthly'')
     = SubscribeOk ''u1'' ''monthly'' 1709380800000
   \<and> civil_of_day (Day (LocalTime utc_zone 1706702400000)) = (2024, 0, 31)
   \<and> TimeWithinDay (LocalTime utc_zone 1706702400000) = 43200000
   \<and> civil_of_day (Day (LocalTime utc_zone 1709380800000)) = (2024, 2, 2)
   \<and> TimeWithinDay (LocalTime utc_zone 1709380800000) = 43200000"
  by code_simp

lemma get_subscription_absent:
  "db uid = None \<Longrightarrow>
   get_subscription Succeeds Succeeds now db uid =
     (db(uid \<mapsto> new_profile uid now),
      InfoOk \<lparr>info_user_id = uid, info_free_generations_remaining = 10,
              info_subscription_status = Free, info_subscription_expiry = None\<rparr>)"
  by (simp add: get_subscription_def getDoc_def setDoc_def)

lemma plan_expiry_known:
  "plan \<in> {''monthly'', ''quarterly'', ''yearly''} \<Longrightarrow>
   \<exists>st ex. plan_expiry z now plan = Some (st, ex)"
  by (auto simp: plan_expiry_def)

text \<open>
  C6, as the code has it. A record created by \<open>checkUserUsage\<close> or by the subscription
  read starts with 10 free generations; a record created by the subscribe route starts with
  0. \<open>decrementFreeUsage\<close> creates nothing.
\<close>

theorem new_record_counter_by_creator:
  assumes "db uid = None"
  shows "map_option free_generations_remaining
           (fst (checkUserUsage Succeeds Succeeds now db uid) uid) = Some 10
       \<and> map_option free_generations_remaining
           (fst (get_subscription Succeeds Succeeds now db uid) uid) = Some 10
       \<and> (uid \<noteq> [] \<and> plan \<in> {''monthly'', ''quarterly'', ''yearly''} \<longrightarrow>
            map_option free_generations_remaining
              (fst (subscribe Succeeds Succeeds z now made db uid plan) uid) = Some 0)
       \<and> fst (decrementFreeUsage rd wr db uid) uid = None"
proof -
  have a: "map_option free_generations_remaining
             (fst (checkUserUsage Succeeds Succeeds now db uid) uid) = Some 10"
    using assms checkUserUsage_absent[of db uid now] by (simp add: new_profile_def)
  have b: "map_option free_generations_remaining
             (fst (get_subscription Succeeds Succeeds now db uid) uid) = Some 10"
    using assms get_subscription_absent[of db uid now] by (simp add: new_profile_def)
  have c: "uid \<noteq> [] \<and> plan \<in> {''monthly'', ''quarterly'', ''yearly''} \<longrightarrow>
            map_option free_generations_remaining
              (fst (subscribe Succeeds Succeeds z now made db uid plan) uid) = Some 0"
  proof
    assume h: "uid \<noteq> [] \<and> plan \<in> {''monthly'', ''quarterly'', ''yearly''}"
    then obtain st ex where "plan_expiry z now plan = Some (st, ex)"
      using plan_expiry_known[of plan z now] by blast
    with h subscribe_valid[of uid z now plan st ex made db] assms
    show "map_option free_generations_remaining
              (fst (subscribe Succeeds Succeeds z now made db uid plan) uid) = Some 0"
      by simp
  qed
  have d: "fst (decrementFreeUsage rd wr db uid) uid = None"
    using assms decrementFreeUsage_cases[of rd wr db uid] by auto
  from a b c d show ?thesis by blast
qed

theorem new_record_counter_by_creator_witness:
  "map_option free_generations_remaining
     (fst (checkUserUsage Succeeds Succeeds 50 Map.empty ''u1'') ''u1'') = Some 10
   \<and> map_option free_generations_remaining
     (fst (get_subscription Succeeds Succeeds 50 Map.empty ''u1'') ''u1'') = Some 10
   \<and> map_option free_generations_remaining
     (fst (subscribe Succeeds Succeeds utc_zone 50 51 Map.empty ''u1'' ''yearly'') ''u1'')
     = Some 0"
  using new_record_counter_by_creator
          [where db = Map.empty and uid = "''u1''" and now = 50 and plan = "''yearly''"
             and z = utc_zone and made = 51]
  by simp

text \<open>
  C6 as stated fails at the subscribe route: for a user id with no record, subscribing
  creates the record with \<open>free_generations_remaining = 0\<close>.
\<close>

theorem subscribe_first_contact_starts_at_zero:
  "(Map.empty :: user_docs) ''u1'' = None
   \<and> map_option free_generations_remaining
       (fst (subscribe Succeeds Succeeds utc_zone 1706702400000 7 Map.empty ''u1'' ''monthly'')
          ''u1'')
     = Some 0"
  by (simp add: subscribe_def getDoc_def setDoc_def plan_expiry_def)

end
